theory Spec2Isabelle
  imports Main
begin

section \<open>Strings\<close>

text \<open>
  A Python \<^verbatim>\<open>str\<close> is a sequence of Unicode code points, and \<^verbatim>\<open>len\<close>, slicing and
  \<^verbatim>\<open>in\<close> work on code points. A string is therefore a list of code points (natural
  numbers), not a list of bytes. \<open>u\<close> turns an ASCII literal into such a string.
\<close>

type_synonym ustr = "nat list"

definition u :: "string \<Rightarrow> ustr" where
  "u s = map of_char s"

text \<open>\<^verbatim>\<open>s.startswith(p)\<close>\<close>

fun startswith :: "ustr \<Rightarrow> ustr \<Rightarrow> bool" where
  "startswith s [] = True"
| "startswith [] (p # ps) = False"
| "startswith (c # cs) (p # ps) = (c = p \<and> startswith cs ps)"

text \<open>\<^verbatim>\<open>sub in s\<close>: \<open>sub\<close> occurs in \<open>s\<close> as a contiguous run.\<close>

fun contains :: "ustr \<Rightarrow> ustr \<Rightarrow> bool" where
  "contains [] sub = (sub = [])"
| "contains (c # cs) sub = (startswith (c # cs) sub \<or> contains cs sub)"

text \<open>
  \<^verbatim>\<open>str.isspace\<close> on one code point: the code points whose bidirectional class is WS, B
  or S, or whose general category is Zs.
\<close>

definition py_isspace :: "nat \<Rightarrow> bool" where
  "py_isspace c =
     ((9 \<le> c \<and> c \<le> 13) \<or> (28 \<le> c \<and> c \<le> 32) \<or> c = 133 \<or> c = 160 \<or> c = 5760
      \<or> (8192 \<le> c \<and> c \<le> 8202) \<or> c = 8232 \<or> c = 8233 \<or> c = 8239 \<or> c = 8287
      \<or> c = 12288)"

text \<open>\<^verbatim>\<open>s.strip()\<close>: leading and trailing whitespace removed.\<close>

definition strip :: "ustr \<Rightarrow> ustr" where
  "strip s = rev (dropWhile py_isspace (rev (dropWhile py_isspace s)))"

text \<open>\<^verbatim>\<open>str(n)\<close> for a non-negative integer: its decimal digits.\<close>

fun dec :: "nat \<Rightarrow> ustr" where
  "dec n = (if n < 10 then [48 + n] else dec (n div 10) @ [48 + n mod 10])"

declare dec.simps [simp del]

section \<open>Messages of the agent SDK\<close>

text \<open>
  The content blocks and messages of \<^verbatim>\<open>claude_agent_sdk\<close>. \<^verbatim>\<open>query_agent\<close> reads
  \<^verbatim>\<open>block.text\<close>, \<^verbatim>\<open>block.name\<close>, \<^verbatim>\<open>block.input\<close> and \<^verbatim>\<open>str(block.content)\<close>; a tool
  input and a tool result are kept as the strings that the f-string and \<^verbatim>\<open>str\<close> make of
  them. A user message can carry content blocks too; system and result messages carry
  none.
\<close>

datatype block =
    TextBlock ustr
  | ToolUseBlock ustr ustr
  | ToolResultBlock ustr
  | ThinkingBlock ustr

datatype message =
    AssistantMessage "block list"
  | UserMessage "block list"
  | SystemMessage
  | ResultMessage

text \<open>
  \<^verbatim>\<open>receive_response()\<close> yields finitely many messages and then either completes or raises
  an \<^verbatim>\<open>Exception\<close> whose \<^verbatim>\<open>str\<close> is given. \<^verbatim>\<open>agent.query\<close> may raise before any message.
\<close>

datatype stream_end = Completed | Raised ustr

datatype reply = QueryRaises ustr | Stream "message list" stream_end

section \<open>The console and the calls on the agent\<close>

text \<open>
  Everything the program does to the outside, in the order it does it: one constructor
  per \<^verbatim>\<open>console.print\<close> or \<^verbatim>\<open>Prompt.ask\<close> of the source that returns (the fixed texts
  are not spelled out, their variable parts are arguments) and one per call on the SDK
  client. An event records what the program hands to the console, not what the console
  then draws from it. \<open>InvalidChoice\<close> is the message of the confirmation prompt for an
  answer that is neither \<open>y\<close> nor \<open>n\<close>.
\<close>

datatype row = Row ustr ustr ustr ustr

datatype event =
    ErrNoApiKey | HintApiKey
  | Welcome
  | CallConnect | InitOk | InitFailed ustr
  | StartChat
  | AskInput | AskConfirm | InvalidChoice
  | Goodbye
  | HelpTables
  | StatusPanel bool
  | DebugToggled bool | DebugHint
  | ClearScreen
  | Scanning | NoDocuments | DocTable nat "row list" | ListFailed ustr
  | Processing | CallQuery ustr
  | ToolUsePanel nat ustr ustr
  | ToolResultPanel nat ustr
  | AnswerPanel ustr | NoTextResponse
  | ToolStats nat
  | OversizedError
  | QueryFailed ustr | QueryHint
  | InterruptNotice
  | LoopError ustr
  | Disconnecting | CallDisconnect | DisconnectDone
  | Traceback ustr

section \<open>The world outside the program\<close>

text \<open>
  An entry found by \<^verbatim>\<open>rglob("*")\<close>: whether \<^verbatim>\<open>is_file()\<close> holds, its \<^verbatim>\<open>name\<close>, what
  \<^verbatim>\<open>stat().st_size\<close> gives (\<open>Inl\<close> when \<^verbatim>\<open>stat\<close> raises) and the parent of its path
  relative to the documents directory.
\<close>

record entry =
  is_file :: bool
  name :: ustr
  st_size :: "ustr + nat"
  rel_parent :: ustr

text \<open>
  The environment: whether \<^verbatim>\<open>ANTHROPIC_API_KEY\<close> is set, what \<^verbatim>\<open>connect\<close> raises if it
  does, what \<^verbatim>\<open>rglob\<close> finds in discovery order (\<open>Inl\<close> when it raises), the reply of
  the remote agent to the \<open>n\<close>-th query of the session with a given prompt, and the
  console library. \<^verbatim>\<open>console.print\<close>, \<^verbatim>\<open>Panel\<close> and the cells of a \<^verbatim>\<open>Table\<close> read a string
  as console markup; \<open>markup_error\<close> says for each text whether the library renders it
  (\<open>None\<close>) or raises its markup error, with the message given. The library is not part
  of the repository; it raises for a closing tag that closes nothing, as in \<^verbatim>\<open>a [/x] b\<close>.
\<close>

record env =
  api_key :: bool
  connect_error :: "ustr option"
  rglob :: "ustr + entry list"
  agent_reply :: "nat \<Rightarrow> ustr \<Rightarrow> reply"
  markup_error :: "ustr \<Rightarrow> ustr option"

text \<open>
  The fields of \<^verbatim>\<open>KYCAgentCLI\<close> that change: \<^verbatim>\<open>self.agent\<close> (set or \<^verbatim>\<open>None\<close>),
  \<^verbatim>\<open>self.session_active\<close> and \<^verbatim>\<open>self.show_react_steps\<close>. \<open>queries_sent\<close> is not a field of
  the class: it counts the queries issued so far, to look the agent's reply up.
\<close>

record cli =
  agent_set :: bool
  session_active :: bool
  show_react_steps :: bool
  queries_sent :: nat

definition init_cli :: cli where
  "init_cli = \<lparr>agent_set = False, session_active = False, show_react_steps = False,
               queries_sent = 0\<rparr>"

text \<open>
  The markup texts of the source that have a variable part. The other texts that the
  program prints are fixed and well-formed, and a number put into a text brings no tag.
  \<^item> \<^verbatim>\<open>f"[cyan]...:[/cyan] {block.name}\n[cyan]...:[/cyan] {block.input}"\<close>
  \<^item> \<^verbatim>\<open>f"[green]{result_preview}[/green]"\<close>
  \<^item> \<^verbatim>\<open>f"[red]...{error_msg}[/red]"\<close> in \<^verbatim>\<open>query_agent\<close>
  \<^item> \<^verbatim>\<open>f"[red]...{e}[/red]"\<close> in \<^verbatim>\<open>run\<close>
  \<^item> \<^verbatim>\<open>f"[red]...{e}[/red]"\<close> in \<^verbatim>\<open>list_documents\<close>
\<close>

definition tool_use_markup :: "ustr \<Rightarrow> ustr \<Rightarrow> ustr" where
  "tool_use_markup nm inp =
     u ''[cyan]'' @ [24037, 20855, 21517, 31216] @ u '':[/cyan] '' @ nm
     @ [10] @ u ''[cyan]'' @ [24037, 20855, 36755, 20837] @ u '':[/cyan] '' @ inp"

definition tool_result_markup :: "ustr \<Rightarrow> ustr" where
  "tool_result_markup preview = u ''[green]'' @ preview @ u ''[/green]''"

definition query_failed_markup :: "ustr \<Rightarrow> ustr" where
  "query_failed_markup error_msg =
     u ''[red]'' @ [22788, 29702, 22833, 36133, 65306] @ error_msg @ u ''[/red]''"

definition loop_error_markup :: "ustr \<Rightarrow> ustr" where
  "loop_error_markup e =
     u ''[red]'' @ [21457, 29983, 38169, 35823, 65306] @ e @ u ''[/red]''"

definition list_failed_markup :: "ustr \<Rightarrow> ustr" where
  "list_failed_markup e =
     u ''[red]'' @ [21015, 20986, 25991, 26723, 22833, 36133, 65306] @ e @ u ''[/red]''"

text \<open>The first text of a list that the console library does not render, with its error.\<close>

fun first_markup_error :: "env \<Rightarrow> ustr list \<Rightarrow> ustr option" where
  "first_markup_error w [] = None"
| "first_markup_error w (t # ts) =
     (case markup_error w t of Some m \<Rightarrow> Some m | None \<Rightarrow> first_markup_error w ts)"

section \<open>\<^verbatim>\<open>list_documents\<close>\<close>

text \<open>
  \<^verbatim>\<open>size / 1024\<close> and \<^verbatim>\<open>size / (1024 * 1024)\<close> are true divisions of two integers: the
  double nearest to the exact quotient, ties to the even significand. The divisor is a
  power of two, so that double is the numerator rounded to 53 significant bits, divided
  exactly. \<^verbatim>\<open>:.1f\<close> prints a double rounded to one decimal, correctly and with ties to even.
\<close>

fun bit_length :: "nat \<Rightarrow> nat" where
  "bit_length n = (if n = 0 then 0 else Suc (bit_length (n div 2)))"

declare bit_length.simps [simp del]

text \<open>\<open>a / b\<close> rounded to the nearest integer, ties to even.\<close>

definition round_half_even :: "nat \<Rightarrow> nat \<Rightarrow> nat" where
  "round_half_even a b =
     (let q = a div b; r = a mod b in
      if 2 * r < b then q
      else if b < 2 * r then q + 1
      else if even q then q else q + 1)"

definition round53 :: "nat \<Rightarrow> nat" where
  "round53 n =
     (if n < 2 ^ 53 then n
      else (let sh = 2 ^ (bit_length n - 53) in round_half_even n sh * sh))"

text \<open>The tenths shown by \<^verbatim>\<open>f"{size / d:.1f}"\<close>, for \<open>d\<close> a power of two.\<close>

definition tenths :: "nat \<Rightarrow> nat \<Rightarrow> nat" where
  "tenths sz d = round_half_even (10 * round53 sz) d"

definition fmt_1f :: "nat \<Rightarrow> ustr" where
  "fmt_1f t = dec (t div 10) @ u ''.'' @ dec (t mod 10)"

definition format_size :: "nat \<Rightarrow> ustr" where
  "format_size sz =
     (if sz < 1024 then dec sz @ u '' B''
      else if sz < 1024 * 1024 then fmt_1f (tenths sz 1024) @ u '' KB''
      else fmt_1f (tenths sz (1024 * 1024)) @ u '' MB'')"

text \<open>
  The loop \<^verbatim>\<open>for idx, file in enumerate(files, 1)\<close>. The table is printed after the loop,
  so a \<^verbatim>\<open>stat\<close> that raises leaves no row behind.
\<close>

fun add_rows :: "nat \<Rightarrow> entry list \<Rightarrow> ustr + row list" where
  "add_rows idx [] = Inr []"
| "add_rows idx (f # fs) =
     (case st_size f of
        Inl e \<Rightarrow> Inl e
      | Inr sz \<Rightarrow>
          (case add_rows (idx + 1) fs of
             Inl e \<Rightarrow> Inl e
           | Inr rows \<Rightarrow> Inr (Row (dec idx) (name f) (format_size sz) (rel_parent f) # rows)))"

text \<open>
  The cells of the table, which are strings and so markup, in the order in which the
  table is measured: column by column.
\<close>

fun row_index :: "row \<Rightarrow> ustr" where
  "row_index (Row i n s p) = i"

fun row_name :: "row \<Rightarrow> ustr" where
  "row_name (Row i n s p) = n"

fun row_size :: "row \<Rightarrow> ustr" where
  "row_size (Row i n s p) = s"

fun row_path :: "row \<Rightarrow> ustr" where
  "row_path (Row i n s p) = p"

definition table_cells :: "row list \<Rightarrow> ustr list" where
  "table_cells rows =
     map row_index rows @ map row_name rows @ map row_size rows @ map row_path rows"

definition listed :: "entry list \<Rightarrow> entry list" where
  "listed all_files = filter (\<lambda>f. is_file f \<and> \<not> startswith (name f) (u ''.'')) all_files"

text \<open>
  The \<^verbatim>\<open>except\<close> branch of \<^verbatim>\<open>list_documents\<close>. The result of a function that prints is what
  it raises (\<open>None\<close> when it returns) and what it has printed.
\<close>

definition list_failed :: "env \<Rightarrow> ustr \<Rightarrow> ustr option \<times> event list" where
  "list_failed w e =
     (case markup_error w (list_failed_markup e) of
        Some m \<Rightarrow> (Some m, [Scanning])
      | None \<Rightarrow> (None, [Scanning, ListFailed e]))"

definition list_documents :: "env \<Rightarrow> ustr option \<times> event list" where
  "list_documents w =
     (case rglob w of
        Inl e \<Rightarrow> list_failed w e
      | Inr all_files \<Rightarrow>
          (let files = listed all_files in
           if files = [] then (None, [Scanning, NoDocuments])
           else (case add_rows 1 files of
                   Inl e \<Rightarrow> list_failed w e
                 | Inr rows \<Rightarrow>
                     (case first_markup_error w (table_cells rows) of
                        Some m \<Rightarrow> list_failed w m
                      | None \<Rightarrow> (None, [Scanning, DocTable (length files) rows])))))"

section \<open>\<^verbatim>\<open>query_agent\<close>\<close>

text \<open>The f-string \<^verbatim>\<open>enhanced_prompt\<close>: the text before the question and the text after it.\<close>

definition prompt_head :: ustr where
  "prompt_head = [
    10, 29992, 25143, 38382, 39064, 65306]"

definition prompt_rules :: ustr where
  "prompt_rules = [
    10, 10, 9888, 65039, 32, 37325, 35201, 25552, 31034, 65288, 35831, 21153, 24517, 36981, 23432, 65289,
    65306, 10, 10, 49, 46, 32, 42, 42, 25991, 20214, 22823, 23567, 38480, 21046, 42, 42,
    65306, 10, 32, 32, 32, 45, 32, 35835, 21462, 20219, 20309, 25991, 20214, 21069, 65292, 20808,
    29992, 32, 96, 108, 115, 32, 45, 108, 104, 96, 32, 25110, 32, 96, 115, 116,
    97, 116, 96, 32, 26816, 26597, 25991, 20214, 22823, 23567, 10, 32, 32, 32, 45, 32,
    36339, 36807, 22823, 20110, 32, 53, 48, 48, 75, 66, 32, 30340, 25991, 20214, 65288, 80,
    68, 70, 12289, 22270, 29255, 12289, 38899, 39057, 31561, 65289, 10, 32, 32, 32, 45, 32,
    23545, 20110, 36825, 20123, 22823, 25991, 20214, 65292, 21482, 36820, 22238, 25991, 20214, 21517, 12289, 22823,
    23567, 12289, 31867, 22411, 31561, 20803, 20449, 24687, 10, 10, 50, 46, 32, 42, 42, 35835,
    21462, 25991, 20214, 26102, 30340, 38480, 21046, 42, 42, 65306, 10, 32, 32, 32, 45, 32,
    20351, 29992, 32, 96, 104, 101, 97, 100, 32, 45, 110, 32, 50, 48, 96, 32,
    32780, 19981, 26159, 32, 96, 99, 97, 116, 96, 65292, 21482, 35835, 21462, 21069, 32, 50,
    48, 32, 34892, 10, 32, 32, 32, 45, 32, 69, 120, 99, 101, 108, 47, 67,
    83, 86, 32, 25991, 20214, 65306, 21482, 35835, 21462, 21069, 20960, 34892, 25968, 25454, 10, 32,
    32, 32, 45, 32, 25991, 26412, 25991, 20214, 65306, 21482, 35835, 21462, 21069, 32, 53, 48,
    48, 32, 23383, 33410, 10, 10, 51, 46, 32, 42, 42, 25512, 33616, 30340, 21629, 20196,
    42, 42, 65306, 10, 32, 32, 32, 45, 32, 21015, 20986, 25991, 20214, 65306, 96, 108,
    115, 32, 45, 108, 104, 96, 32, 25110, 32, 96, 102, 105, 110, 100, 32, 46,
    32, 45, 116, 121, 112, 101, 32, 102, 96, 10, 32, 32, 32, 45, 32, 26597,
    30475, 22823, 23567, 65306, 96, 100, 117, 32, 45, 104, 96, 32, 25110, 32, 96, 115,
    116, 97, 116, 96, 10, 32, 32, 32, 45, 32, 39044, 35272, 25991, 26412, 65306, 96,
    104, 101, 97, 100, 32, 45, 110, 32, 50, 48, 32, 102, 105, 108, 101, 110,
    97, 109, 101, 96, 10, 32, 32, 32, 45, 32, 25628, 32034, 20869, 23481, 65306, 96,
    103, 114, 101, 112, 32, 45, 110, 32, 34, 20851, 38190, 35789, 34, 32, 102, 105,
    108, 101, 110, 97, 109, 101, 32, 124, 32, 104, 101, 97, 100, 32, 45, 110,
    32, 49, 48, 96, 10, 10, 52, 46, 32, 42, 42, 24517, 39035, 36339, 36807, 30340,
    25991, 20214, 31867, 22411, 42, 42, 65306, 10, 32, 32, 32, 45, 32, 22270, 29255, 65306,
    46, 112, 110, 103, 44, 32, 46, 106, 112, 103, 44, 32, 46, 106, 112, 101,
    103, 44, 32, 46, 103, 105, 102, 10, 32, 32, 32, 45, 32, 80, 68, 70,
    65306, 46, 112, 100, 102, 10, 32, 32, 32, 45, 32, 38899, 39057, 65306, 46, 109,
    52, 97, 44, 32, 46, 109, 112, 51, 44, 32, 46, 119, 97, 118, 10, 32,
    32, 32, 45, 32, 35270, 39057, 65306, 46, 109, 112, 52, 44, 32, 46, 97, 118,
    105, 44, 32, 46, 109, 111, 118, 10, 32, 32, 32, 45, 32, 23545, 36825, 20123,
    25991, 20214, 21482, 25253, 21578, 20803, 20449, 24687, 10, 10, 53, 46, 32, 42, 42, 20248,
    20808, 31574, 30053, 42, 42, 65306, 10, 32, 32, 32, 45, 32, 20248, 20808, 20351, 29992,
    25991, 20214, 31995, 32479, 21629, 20196, 65288, 108, 115, 44, 32, 102, 105, 110, 100, 44,
    32, 100, 117, 65289, 33719, 21462, 20449, 24687, 10, 32, 32, 32, 45, 32, 38656, 35201,
    20869, 23481, 26102, 65292, 20808, 30830, 35748, 25991, 20214, 22823, 23567, 23433, 20840, 10, 32, 32,
    32, 45, 32, 20998, 25209, 22788, 29702, 65292, 19981, 35201, 19968, 27425, 24615, 35835, 21462, 22810,
    20010, 25991, 20214, 10, 10, 35831, 25353, 29031, 36825, 20123, 35268, 21017, 22788, 29702, 29992, 25143,
    30340, 38382, 39064, 12290, 10]"

definition enhanced_prompt :: "ustr \<Rightarrow> ustr" where
  "enhanced_prompt question = prompt_head @ question @ prompt_rules"

text \<open>
  The state of the loop over the stream: the local variables \<^verbatim>\<open>response_text\<close> and
  \<^verbatim>\<open>tool_use_count\<close>, and what has been printed since the loop began.
\<close>

record loop_state =
  response_text :: ustr
  tool_use_count :: nat
  printed :: "event list"

definition loop_init :: loop_state where
  "loop_init = \<lparr>response_text = [], tool_use_count = 0, printed = []\<rparr>"

definition result_preview :: "ustr \<Rightarrow> ustr" where
  "result_preview c = (if 200 < length c then take 200 c @ u ''...'' else c)"

text \<open>
  One block of an assistant message. \<open>Inl\<close> is a print that raises, with the message of
  the error and the state at that point: the counter is incremented before the panel of
  a tool call is printed.
\<close>

fun handle_block ::
  "env \<Rightarrow> bool \<Rightarrow> loop_state \<Rightarrow> block \<Rightarrow> (ustr \<times> loop_state) + loop_state" where
  "handle_block w dbg s (TextBlock t) = Inr (s\<lparr>response_text := response_text s @ t\<rparr>)"
| "handle_block w dbg s (ToolUseBlock nm inp) =
     (if dbg
      then (case markup_error w (tool_use_markup nm inp) of
              Some m \<Rightarrow> Inl (m, s\<lparr>tool_use_count := tool_use_count s + 1\<rparr>)
            | None \<Rightarrow>
                Inr (s\<lparr>tool_use_count := tool_use_count s + 1,
                       printed := printed s @ [ToolUsePanel (tool_use_count s + 1) nm inp]\<rparr>))
      else Inr s)"
| "handle_block w dbg s (ToolResultBlock c) =
     (if dbg
      then (case markup_error w (tool_result_markup (result_preview c)) of
              Some m \<Rightarrow> Inl (m, s)
            | None \<Rightarrow>
                Inr (s\<lparr>printed := printed s
                         @ [ToolResultPanel (tool_use_count s) (result_preview c)]\<rparr>))
      else Inr s)"
| "handle_block w dbg s (ThinkingBlock t) = Inr s"

text \<open>\<^verbatim>\<open>for block in message.content\<close>: the first print that raises ends the loop.\<close>

fun handle_blocks ::
  "env \<Rightarrow> bool \<Rightarrow> loop_state \<Rightarrow> block list \<Rightarrow> (ustr \<times> loop_state) + loop_state" where
  "handle_blocks w dbg s [] = Inr s"
| "handle_blocks w dbg s (b # bs) =
     (case handle_block w dbg s b of
        Inl x \<Rightarrow> Inl x
      | Inr s' \<Rightarrow> handle_blocks w dbg s' bs)"

fun handle_message ::
  "env \<Rightarrow> bool \<Rightarrow> loop_state \<Rightarrow> message \<Rightarrow> (ustr \<times> loop_state) + loop_state" where
  "handle_message w dbg s (AssistantMessage content) = handle_blocks w dbg s content"
| "handle_message w dbg s (UserMessage content) = Inr s"
| "handle_message w dbg s SystemMessage = Inr s"
| "handle_message w dbg s ResultMessage = Inr s"

text \<open>\<^verbatim>\<open>async for message in self.agent.receive_response()\<close>\<close>

fun receive_loop ::
  "env \<Rightarrow> bool \<Rightarrow> loop_state \<Rightarrow> message list \<Rightarrow> (ustr \<times> loop_state) + loop_state" where
  "receive_loop w dbg s [] = Inr s"
| "receive_loop w dbg s (m # ms) =
     (case handle_message w dbg s m of
        Inl x \<Rightarrow> Inl x
      | Inr s' \<Rightarrow> receive_loop w dbg s' ms)"

text \<open>
  The \<^verbatim>\<open>except Exception\<close> branch of \<^verbatim>\<open>query_agent\<close>. Its second print is a fixed text. A
  print that raises here raises out of \<^verbatim>\<open>query_agent\<close>.
\<close>

definition is_oversized :: "ustr \<Rightarrow> bool" where
  "is_oversized error_msg =
     (contains error_msg (u ''exceeded maximum buffer size'')
      \<or> contains error_msg (u ''JSON message exceeded''))"

definition report_error :: "env \<Rightarrow> ustr \<Rightarrow> ustr option \<times> event list" where
  "report_error w error_msg =
     (if is_oversized error_msg then (None, [OversizedError])
      else (case markup_error w (query_failed_markup error_msg) of
              Some m \<Rightarrow> (Some m, [])
            | None \<Rightarrow> (None, [QueryFailed error_msg, QueryHint])))"

text \<open>
  What is printed once the stream has completed. The answer is given to the console as
  Markdown, which is not read as markup.
\<close>

definition show_response :: "bool \<Rightarrow> loop_state \<Rightarrow> event list" where
  "show_response dbg s =
     (if response_text s \<noteq> [] then [AnswerPanel (response_text s)] else [NoTextResponse])
     @ (if dbg \<and> 0 < tool_use_count s then [ToolStats (tool_use_count s)] else [])"

text \<open>
  \<^verbatim>\<open>query_agent\<close> is called once \<^verbatim>\<open>initialize_agent\<close> has set \<^verbatim>\<open>self.agent\<close>. An exception of
  the stream, of the query or of a print in the loop is handled by the \<^verbatim>\<open>except\<close> branch.
\<close>

definition query_agent :: "env \<Rightarrow> cli \<Rightarrow> ustr \<Rightarrow> ustr option \<times> event list" where
  "query_agent w st question =
     (case agent_reply w (queries_sent st) (enhanced_prompt question) of
        QueryRaises e \<Rightarrow>
          (fst (report_error w e),
           Processing # CallQuery (enhanced_prompt question) # snd (report_error w e))
      | Stream msgs fin \<Rightarrow>
          (case receive_loop w (show_react_steps st) loop_init msgs of
             Inl x \<Rightarrow>
               (fst (report_error w (fst x)),
                Processing # CallQuery (enhanced_prompt question) # printed (snd x)
                  @ snd (report_error w (fst x)))
           | Inr s \<Rightarrow>
               (case fin of
                  Raised e \<Rightarrow>
                    (fst (report_error w e),
                     Processing # CallQuery (enhanced_prompt question) # printed s
                       @ snd (report_error w e))
                | Completed \<Rightarrow>
                    (None,
                     Processing # CallQuery (enhanced_prompt question) # printed s
                       @ show_response (show_react_steps st) s))))"

section \<open>\<^verbatim>\<open>process_command\<close>\<close>

text \<open>
  The result is what the call gives (\<open>Inr\<close> the returned flag, where \<open>False\<close> leaves the
  main loop; \<open>Inl\<close> the message of an exception that it raises), the fields of the object
  afterwards and what was printed.
\<close>

fun returns_true :: "ustr option \<Rightarrow> ustr + bool" where
  "returns_true None = Inr True"
| "returns_true (Some m) = Inl m"

definition process_command :: "env \<Rightarrow> cli \<Rightarrow> ustr \<Rightarrow> (ustr + bool) \<times> cli \<times> event list" where
  "process_command w st raw =
     (let user_input = strip raw in
      if user_input = [] then (Inr True, st, [])
      else if user_input = u ''/quit'' \<or> user_input = u ''/exit'' \<or> user_input = u ''/q''
        then (Inr False, st, [Goodbye])
      else if user_input = u ''/help'' then (Inr True, st, [HelpTables])
      else if user_input = u ''/list''
        then (returns_true (fst (list_documents w)), st, snd (list_documents w))
      else if user_input = u ''/status''
        then (Inr True, st, [StatusPanel (session_active st)])
      else if user_input = u ''/debug''
        then (let st' = st\<lparr>show_react_steps := \<not> show_react_steps st\<rparr> in
              (Inr True, st',
               DebugToggled (show_react_steps st') #
               (if show_react_steps st' then [DebugHint] else [])))
      else if user_input = u ''/clear'' then (Inr True, st, [ClearScreen])
      else (returns_true (fst (query_agent w st user_input)),
            st\<lparr>queries_sent := queries_sent st + 1\<rparr>,
            snd (query_agent w st user_input)))"

section \<open>\<^verbatim>\<open>run\<close>\<close>

text \<open>
  What a call of the input function of a prompt gives: a line, a \<^verbatim>\<open>KeyboardInterrupt\<close>
  raised in it, or another exception (such as \<^verbatim>\<open>EOFError\<close>) with its text. The input of a
  session is the list of what the successive calls give; when it is used up the program
  is left waiting at a prompt. How a signal becomes a \<^verbatim>\<open>KeyboardInterrupt\<close> is the
  business of the runtime and not modelled: under \<^verbatim>\<open>asyncio.run\<close> of Python 3.11 and later
  the first interrupt signal cancels the main task and raises nothing at the prompt.
\<close>

datatype input = Line ustr | Interrupt | InputError ustr

datatype loop_end = Break | AwaitInput | AwaitConfirm | Uncaught ustr

text \<open>
  The prompt at which the program stands. \<^verbatim>\<open>Prompt.ask\<close> with \<^verbatim>\<open>choices=["y", "n"]\<close> and
  \<^verbatim>\<open>default="n"\<close> returns the default for an empty line, strips any other line, returns it
  when it is one of the choices, and otherwise prints a message and asks again.
\<close>

datatype prompt = InputPrompt | ConfirmPrompt

text \<open>
  The \<^verbatim>\<open>while True\<close> loop with its three handlers. The handler of \<^verbatim>\<open>Exception\<close> prints the
  exception as markup: when that print raises, the exception leaves the loop. An
  exception of the confirmation prompt other than \<^verbatim>\<open>KeyboardInterrupt\<close> is raised inside a
  handler, so no handler of the same \<^verbatim>\<open>try\<close> catches it.
\<close>

fun main_loop_at ::
  "prompt \<Rightarrow> env \<Rightarrow> cli \<Rightarrow> input list \<Rightarrow> loop_end \<times> cli \<times> event list" where
  "main_loop_at InputPrompt w st [] = (AwaitInput, st, [AskInput])"
| "main_loop_at InputPrompt w st (Line s # ins) =
     (let r = process_command w st s;
          st' = fst (snd r);
          out = snd (snd r)
      in case fst r of
           Inr go \<Rightarrow>
             (if go
              then (let r' = main_loop_at InputPrompt w st' ins in
                    (fst r', fst (snd r'), AskInput # out @ snd (snd r')))
              else (Break, st', AskInput # out))
         | Inl e \<Rightarrow>
             (case markup_error w (loop_error_markup e) of
                Some m \<Rightarrow> (Uncaught m, st', AskInput # out)
              | None \<Rightarrow>
                  (let r' = main_loop_at InputPrompt w st' ins in
                   (fst r', fst (snd r'), AskInput # out @ LoopError e # snd (snd r')))))"
| "main_loop_at InputPrompt w st (InputError e # ins) =
     (case markup_error w (loop_error_markup e) of
        Some m \<Rightarrow> (Uncaught m, st, [AskInput])
      | None \<Rightarrow>
          (let r' = main_loop_at InputPrompt w st ins in
           (fst r', fst (snd r'), AskInput # LoopError e # snd (snd r'))))"
| "main_loop_at InputPrompt w st (Interrupt # ins) =
     (let r' = main_loop_at ConfirmPrompt w st ins in
      (fst r', fst (snd r'), AskInput # InterruptNotice # snd (snd r')))"
| "main_loop_at ConfirmPrompt w st [] = (AwaitConfirm, st, [AskConfirm])"
| "main_loop_at ConfirmPrompt w st (Line c # ins) =
     (if c = [] \<or> strip c = u ''n''
      then (let r' = main_loop_at InputPrompt w st ins in
            (fst r', fst (snd r'), AskConfirm # snd (snd r')))
      else if strip c = u ''y'' then (Break, st, [AskConfirm])
      else (let r' = main_loop_at ConfirmPrompt w st ins in
            (fst r', fst (snd r'), AskConfirm # InvalidChoice # snd (snd r'))))"
| "main_loop_at ConfirmPrompt w st (Interrupt # ins) = (Break, st, [AskConfirm, Goodbye])"
| "main_loop_at ConfirmPrompt w st (InputError e # ins) = (Uncaught e, st, [AskConfirm])"

definition main_loop :: "env \<Rightarrow> cli \<Rightarrow> input list \<Rightarrow> loop_end \<times> cli \<times> event list" where
  "main_loop w st ins = main_loop_at InputPrompt w st ins"

text \<open>The \<^verbatim>\<open>finally\<close> block of \<^verbatim>\<open>run\<close>; \<^verbatim>\<open>disconnect\<close> is taken to return.\<close>

definition disconnect_if_active :: "cli \<Rightarrow> event list" where
  "disconnect_if_active st =
     (if agent_set st \<and> session_active st
      then [Disconnecting, CallDisconnect, DisconnectDone] else [])"

text \<open>
  \<^verbatim>\<open>initialize_agent\<close>: \<open>None\<close> is \<^verbatim>\<open>sys.exit(1)\<close>. The print of the failure is taken to
  return; were it to raise, the process would end with status 1 all the same, by the
  traceback and before any prompt.
\<close>

definition initialize_agent :: "env \<Rightarrow> cli \<Rightarrow> cli option \<times> event list" where
  "initialize_agent w st =
     (case connect_error w of
        Some e \<Rightarrow> (None, [CallConnect, InitFailed e])
      | None \<Rightarrow> (Some (st\<lparr>agent_set := True, session_active := True\<rparr>), [CallConnect, InitOk]))"

text \<open>
  How the process stands after the given input: it has exited with a status, or it is
  still waiting at a prompt. An exception that leaves \<^verbatim>\<open>run\<close> ends the process with a
  traceback and status 1.
\<close>

datatype outcome = Exit nat | Waiting

definition run :: "env \<Rightarrow> input list \<Rightarrow> outcome \<times> event list" where
  "run w ins =
     (if \<not> api_key w then (Exit 1, [ErrNoApiKey, HintApiKey])
      else (case initialize_agent w init_cli of
              (None, out) \<Rightarrow> (Exit 1, Welcome # out)
            | (Some st, out) \<Rightarrow>
                (let r = main_loop w st ins;
                     shown = Welcome # out @ StartChat # snd (snd r);
                     fin = disconnect_if_active (fst (snd r))
                 in case fst r of
                      AwaitInput \<Rightarrow> (Waiting, shown)
                    | AwaitConfirm \<Rightarrow> (Waiting, shown)
                    | Break \<Rightarrow> (Exit 0, shown @ fin)
                    | Uncaught e \<Rightarrow> (Exit 1, shown @ fin @ [Traceback e]))))"

section \<open>Vocabulary of the properties\<close>

text \<open>
  The text a block contributes to the answer, and the text of a list of blocks: the
  concatenation of the texts of its Text blocks, in order.
\<close>

fun block_text :: "block \<Rightarrow> ustr" where
  "block_text (TextBlock t) = t"
| "block_text (ToolUseBlock nm inp) = []"
| "block_text (ToolResultBlock c) = []"
| "block_text (ThinkingBlock t) = []"

definition text_of_blocks :: "block list \<Rightarrow> ustr" where
  "text_of_blocks bs = concat (map block_text bs)"

fun is_tool_use :: "block \<Rightarrow> bool" where
  "is_tool_use (ToolUseBlock nm inp) = True"
| "is_tool_use (TextBlock t) = False"
| "is_tool_use (ToolResultBlock c) = False"
| "is_tool_use (ThinkingBlock t) = False"

fun is_assistant :: "message \<Rightarrow> bool" where
  "is_assistant (AssistantMessage content) = True"
| "is_assistant (UserMessage content) = False"
| "is_assistant SystemMessage = False"
| "is_assistant ResultMessage = False"

text \<open>
  The blocks of a stream that the loop examines (those of assistant messages), and all the
  blocks that its messages carry, whatever the type of the message.
\<close>

fun assistant_content :: "message \<Rightarrow> block list" where
  "assistant_content (AssistantMessage content) = content"
| "assistant_content (UserMessage content) = []"
| "assistant_content SystemMessage = []"
| "assistant_content ResultMessage = []"

fun any_content :: "message \<Rightarrow> block list" where
  "any_content (AssistantMessage content) = content"
| "any_content (UserMessage content) = content"
| "any_content SystemMessage = []"
| "any_content ResultMessage = []"

definition examined :: "message list \<Rightarrow> block list" where
  "examined msgs = concat (map assistant_content msgs)"

definition carried :: "message list \<Rightarrow> block list" where
  "carried msgs = concat (map any_content msgs)"

text \<open>
  Whether the console library renders the panel that debug mode prints for a block.
\<close>

fun block_renders :: "env \<Rightarrow> block \<Rightarrow> bool" where
  "block_renders w (ToolUseBlock nm inp) = (markup_error w (tool_use_markup nm inp) = None)"
| "block_renders w (ToolResultBlock c) =
     (markup_error w (tool_result_markup (result_preview c)) = None)"
| "block_renders w (TextBlock t) = True"
| "block_renders w (ThinkingBlock t) = True"

text \<open>
  The final answer as it is rendered for a given buffer.
\<close>

definition final_answer :: "ustr \<Rightarrow> event" where
  "final_answer t = (if t = [] then NoTextResponse else AnswerPanel t)"

fun is_answer :: "event \<Rightarrow> bool" where
  "is_answer (AnswerPanel t) = True"
| "is_answer NoTextResponse = True"
| "is_answer e = False"

fun is_tool_panel :: "event \<Rightarrow> bool" where
  "is_tool_panel (ToolUsePanel n nm inp) = True"
| "is_tool_panel (ToolResultPanel n c) = True"
| "is_tool_panel e = False"

fun is_query_progress :: "event \<Rightarrow> bool" where
  "is_query_progress Processing = True"
| "is_query_progress (CallQuery p) = True"
| "is_query_progress (ToolUsePanel n nm inp) = True"
| "is_query_progress (ToolResultPanel n c) = True"
| "is_query_progress e = False"

text \<open>
  The tokens that \<^verbatim>\<open>process_command\<close> compares its input with.
\<close>

definition command_tokens :: "ustr list" where
  "command_tokens = [u ''/help'', u ''/list'', u ''/status'', u ''/debug'', u ''/clear'',
                     u ''/quit'', u ''/exit'', u ''/q'']"

text \<open>
  The row that \<^verbatim>\<open>list_documents\<close> adds for the \<open>idx\<close>-th listed file, \<open>idx\<close> counting
  from 1 as \<^verbatim>\<open>enumerate(files, 1)\<close> does.
\<close>

definition row_of :: "nat \<times> entry \<Rightarrow> row" where
  "row_of p = Row (dec (fst p)) (name (snd p)) (format_size (projr (st_size (snd p))))
                (rel_parent (snd p))"

text \<open>
  The object once \<^verbatim>\<open>initialize_agent\<close> has connected.
\<close>

definition connected_cli :: cli where
  "connected_cli = init_cli\<lparr>agent_set := True, session_active := True\<rparr>"

section \<open>Example sessions\<close>

text \<open>
  A console library that renders every text, and an agent whose first reply is the
  scenario of the specification (text, a tool call, a tool result of 300 characters,
  text, with a user message in between), whose second reply breaks off with an
  oversized-payload failure and whose later queries raise at once.
\<close>

definition renders_all :: "ustr \<Rightarrow> ustr option" where
  "renders_all t = None"

definition demo_stream :: "message list" where
  "demo_stream =
     [AssistantMessage [TextBlock (u ''A''), ToolUseBlock (u ''x'') (u ''{}'')],
      UserMessage [TextBlock (u ''zz'')],
      AssistantMessage [ToolResultBlock (replicate 300 121), TextBlock (u ''B'')]]"

definition demo_reply :: "nat \<Rightarrow> ustr \<Rightarrow> reply" where
  "demo_reply n p =
     (if n = 0 then Stream demo_stream Completed
      else if n = 1 then Stream [AssistantMessage [TextBlock (u ''A'')]]
                           (Raised (u ''JSON message exceeded maximum buffer size''))
      else QueryRaises (u ''timeout''))"

definition demo_env :: env where
  "demo_env = \<lparr>api_key = True, connect_error = None, rglob = Inr [],
                agent_reply = demo_reply, markup_error = renders_all\<rparr>"

text \<open>
  An agent that answers in a user message only.
\<close>

definition user_text_stream :: "message list" where
  "user_text_stream = [UserMessage [TextBlock (u ''A'')]]"

definition user_text_reply :: "nat \<Rightarrow> ustr \<Rightarrow> reply" where
  "user_text_reply n p = Stream user_text_stream Completed"

definition user_text_env :: env where
  "user_text_env = demo_env\<lparr>agent_reply := user_text_reply\<rparr>"

text \<open>
  The message of the markup error of the console library for a closing tag that closes
  nothing, and the library on the texts of the next session: the tags \<^verbatim>\<open>[/tmp/x]\<close> and
  \<^verbatim>\<open>[/INST]\<close> close nothing, in the text in which they first occur and in the texts that
  quote the error message. In that session the first query raises with the description
  \<^verbatim>\<open>cannot read [/tmp/x]\<close>, and the later ones bring a tool result \<^verbatim>\<open>out [/INST] done\<close>.
\<close>

definition closing_tag_error :: "ustr \<Rightarrow> nat \<Rightarrow> ustr" where
  "closing_tag_error tag pos =
     u ''closing tag '' @ [39] @ tag @ [39] @ u '' at position '' @ dec pos
     @ u '' doesn'' @ [39] @ u ''t match any open tag''"

definition example_markup_error :: "ustr \<Rightarrow> ustr option" where
  "example_markup_error t =
     (if t = query_failed_markup (u ''cannot read [/tmp/x]'')
        then Some (closing_tag_error (u ''[/tmp/x]'') 22)
      else if t = loop_error_markup (closing_tag_error (u ''[/tmp/x]'') 22)
        then Some (closing_tag_error (u ''[/tmp/x]'') 23)
      else if t = tool_result_markup (u ''out [/INST] done'')
        then Some (closing_tag_error (u ''[/INST]'') 11)
      else if t = query_failed_markup (closing_tag_error (u ''[/INST]'') 11)
        then Some (closing_tag_error (u ''[/INST]'') 23)
      else if t = loop_error_markup (closing_tag_error (u ''[/INST]'') 23)
        then Some (closing_tag_error (u ''[/INST]'') 23)
      else None)"

definition markup_reply :: "nat \<Rightarrow> ustr \<Rightarrow> reply" where
  "markup_reply n p =
     (if n = 0 then QueryRaises (u ''cannot read [/tmp/x]'')
      else Stream [AssistantMessage [TextBlock (u ''A''),
                                     ToolResultBlock (u ''out [/INST] done'')]] Completed)"

definition markup_env :: env where
  "markup_env = demo_env\<lparr>agent_reply := markup_reply, markup_error := example_markup_error\<rparr>"

text \<open>
  An environment without the API key, and one whose agent refuses the connection.
\<close>

definition no_key_env :: env where
  "no_key_env = demo_env\<lparr>api_key := False\<rparr>"

definition no_connect_env :: env where
  "no_connect_env = demo_env\<lparr>connect_error := Some (u ''refused'')\<rparr>"


text \<open>
  A documents directory as \<^verbatim>\<open>rglob\<close> finds it: a subdirectory, a hidden file and three
  files of 1048576, 500 and 2048 bytes, in this order.
\<close>

definition demo_files :: "entry list" where
  "demo_files =
     [\<lparr>is_file = False, name = u ''sub'', st_size = Inr 4096, rel_parent = u ''.''\<rparr>,
      \<lparr>is_file = True, name = u ''c.pdf'', st_size = Inr 1048576, rel_parent = u ''.''\<rparr>,
      \<lparr>is_file = True, name = u ''.hidden'', st_size = Inr 10, rel_parent = u ''.''\<rparr>,
      \<lparr>is_file = True, name = u ''a.txt'', st_size = Inr 500, rel_parent = u ''sub''\<rparr>,
      \<lparr>is_file = True, name = u ''b.xlsx'', st_size = Inr 2048, rel_parent = u ''.''\<rparr>]"

definition listing_env :: env where
  "listing_env = demo_env\<lparr>rglob := Inr demo_files\<rparr>"

section \<open>The loop over the stream\<close>

lemma handle_blocks_append:
  "handle_blocks w dbg s (xs @ ys) =
     (case handle_blocks w dbg s xs of Inl x \<Rightarrow> Inl x | Inr s' \<Rightarrow> handle_blocks w dbg s' ys)"
  by (induction xs arbitrary: s) (simp_all split: sum.splits)

lemma handle_message_content:
  "handle_message w dbg s m = handle_blocks w dbg s (assistant_content m)"
  by (cases m) simp_all

text \<open>
  The loop sees a stream as the concatenation of the contents of its assistant messages.
\<close>

lemma receive_loop_examined:
  "receive_loop w dbg s msgs = handle_blocks w dbg s (examined msgs)"
  unfolding examined_def
  by (induction msgs arbitrary: s)
    (simp_all add: handle_message_content handle_blocks_append split: sum.splits)

lemma handle_block_done:
  assumes "handle_block w dbg s b = Inr s'"
  shows "response_text s' = response_text s @ block_text b
       \<and> tool_use_count s' = tool_use_count s + (if dbg \<and> is_tool_use b then 1 else 0)
       \<and> (\<exists>ps. printed s' = printed s @ ps \<and> (\<forall>e \<in> set ps. is_tool_panel e))
       \<and> (\<not> dbg \<longrightarrow> printed s' = printed s)"
  using assms by (cases b) (auto split: if_splits option.splits)

lemma handle_block_raised:
  assumes "handle_block w dbg s b = Inl (m, s')"
  shows "dbg \<and> printed s' = printed s \<and> \<not> block_renders w b
       \<and> tool_use_count s' = tool_use_count s + (if is_tool_use b then 1 else 0)"
  using assms by (cases b) (auto split: if_splits option.splits)

lemma handle_block_renders:
  assumes "dbg \<longrightarrow> block_renders w b"
  shows "\<exists>s'. handle_block w dbg s b = Inr s'"
  using assms by (cases b) (auto split: option.splits)

lemma handle_blocks_done:
  assumes "handle_blocks w dbg s bs = Inr s'"
  shows "response_text s' = response_text s @ text_of_blocks bs
       \<and> tool_use_count s' = tool_use_count s + (if dbg then length (filter is_tool_use bs) else 0)
       \<and> (\<exists>ps. printed s' = printed s @ ps \<and> (\<forall>e \<in> set ps. is_tool_panel e))
       \<and> (\<not> dbg \<longrightarrow> printed s' = printed s)"
  using assms
proof (induction bs arbitrary: s)
  case Nil
  then show ?case by (simp add: text_of_blocks_def)
next
  case (Cons b bs)
  from Cons.prems obtain s1 where b: "handle_block w dbg s b = Inr s1"
      and bs: "handle_blocks w dbg s1 bs = Inr s'"
    by (auto split: sum.splits)
  note f = handle_block_done [OF b]
  note g = Cons.IH [OF bs]
  obtain ps where ps: "printed s1 = printed s @ ps" "\<forall>e \<in> set ps. is_tool_panel e"
    using f by blast
  obtain qs where qs: "printed s' = printed s1 @ qs" "\<forall>e \<in> set qs. is_tool_panel e"
    using g by blast
  have p: "\<exists>rs. printed s' = printed s @ rs \<and> (\<forall>e \<in> set rs. is_tool_panel e)"
  proof (intro exI conjI)
    show "printed s' = printed s @ (ps @ qs)" using ps(1) qs(1) by simp
    show "\<forall>e \<in> set (ps @ qs). is_tool_panel e" using ps(2) qs(2) by auto
  qed
  have t: "response_text s' = response_text s @ text_of_blocks (b # bs)"
    using f g by (simp add: text_of_blocks_def)
  have c: "tool_use_count s'
      = tool_use_count s + (if dbg then length (filter is_tool_use (b # bs)) else 0)"
    using f g by simp
  have q: "\<not> dbg \<longrightarrow> printed s' = printed s"
    using f g by simp
  show ?case using t c p q by blast
qed

lemma handle_blocks_raised:
  assumes "handle_blocks w dbg s bs = Inl (m, s')"
  shows "dbg \<and> (\<exists>ps. printed s' = printed s @ ps \<and> (\<forall>e \<in> set ps. is_tool_panel e))
       \<and> (\<exists>k<length bs. \<not> block_renders w (bs ! k)
             \<and> tool_use_count s'
                 = tool_use_count s + length (filter is_tool_use (take (Suc k) bs)))"
  using assms
proof (induction bs arbitrary: s)
  case Nil
  then show ?case by simp
next
  case (Cons b bs)
  show ?case
  proof (cases "handle_block w dbg s b")
    case (Inl x)
    then have x: "handle_block w dbg s b = Inl (m, s')" using Cons.prems by simp
    note f = handle_block_raised [OF x]
    have "0 < length (b # bs) \<and> \<not> block_renders w ((b # bs) ! 0)
        \<and> tool_use_count s'
            = tool_use_count s + length (filter is_tool_use (take (Suc 0) (b # bs)))"
      using f by simp
    then have "\<exists>k<length (b # bs). \<not> block_renders w ((b # bs) ! k)
        \<and> tool_use_count s'
            = tool_use_count s + length (filter is_tool_use (take (Suc k) (b # bs)))"
      by blast
    moreover have "\<exists>ps. printed s' = printed s @ ps \<and> (\<forall>e \<in> set ps. is_tool_panel e)"
      using f by simp
    ultimately show ?thesis using f by blast
  next
    case (Inr s1)
    then have bs: "handle_blocks w dbg s1 bs = Inl (m, s')" using Cons.prems by simp
    note f = handle_block_done [OF Inr]
    note g = Cons.IH [OF bs]
    obtain ps where ps: "printed s1 = printed s @ ps" "\<forall>e \<in> set ps. is_tool_panel e"
      using f by blast
    obtain qs where qs: "printed s' = printed s1 @ qs" "\<forall>e \<in> set qs. is_tool_panel e"
      using g by blast
    obtain k where k: "k < length bs" "\<not> block_renders w (bs ! k)"
        "tool_use_count s' = tool_use_count s1 + length (filter is_tool_use (take (Suc k) bs))"
      using g by blast
    have p: "\<exists>rs. printed s' = printed s @ rs \<and> (\<forall>e \<in> set rs. is_tool_panel e)"
    proof (intro exI conjI)
      show "printed s' = printed s @ (ps @ qs)" using ps(1) qs(1) by simp
      show "\<forall>e \<in> set (ps @ qs). is_tool_panel e" using ps(2) qs(2) by auto
    qed
    have "Suc k < length (b # bs) \<and> \<not> block_renders w ((b # bs) ! Suc k)
        \<and> tool_use_count s'
            = tool_use_count s + length (filter is_tool_use (take (Suc (Suc k)) (b # bs)))"
      using k f g by simp
    then have "\<exists>j<length (b # bs). \<not> block_renders w ((b # bs) ! j)
        \<and> tool_use_count s'
            = tool_use_count s + length (filter is_tool_use (take (Suc j) (b # bs)))"
      by blast
    then show ?thesis using g p by blast
  qed
qed

lemma handle_blocks_renders:
  assumes "dbg \<longrightarrow> (\<forall>b \<in> set bs. block_renders w b)"
  shows "\<exists>s'. handle_blocks w dbg s bs = Inr s'"
  using assms
proof (induction bs arbitrary: s)
  case Nil
  show ?case by simp
next
  case (Cons b bs)
  obtain s1 where s1: "handle_block w dbg s b = Inr s1"
    using handle_block_renders [of dbg w b s] Cons.prems by auto
  obtain s' where "handle_blocks w dbg s1 bs = Inr s'"
    using Cons.IH [of s1] Cons.prems by auto
  then show ?case using s1 by simp
qed

lemma receive_loop_done:
  assumes "receive_loop w dbg loop_init msgs = Inr s"
  shows "response_text s = text_of_blocks (examined msgs)
       \<and> tool_use_count s = (if dbg then length (filter is_tool_use (examined msgs)) else 0)
       \<and> (\<forall>e \<in> set (printed s). is_tool_panel e)
       \<and> (\<not> dbg \<longrightarrow> printed s = [])"
  using handle_blocks_done [of w dbg loop_init "examined msgs" s] assms
  by (auto simp: receive_loop_examined loop_init_def)

lemma receive_loop_raised:
  assumes "receive_loop w dbg loop_init msgs = Inl (m, s)"
  shows "dbg \<and> (\<forall>e \<in> set (printed s). is_tool_panel e)
       \<and> (\<exists>k<length (examined msgs). \<not> block_renders w (examined msgs ! k)
             \<and> tool_use_count s = length (filter is_tool_use (take (Suc k) (examined msgs))))"
  using handle_blocks_raised [of w dbg loop_init "examined msgs" m s] assms
  by (auto simp: receive_loop_examined loop_init_def)

lemma receive_loop_renders:
  assumes "dbg \<longrightarrow> (\<forall>b \<in> set (examined msgs). block_renders w b)"
  shows "\<exists>s. receive_loop w dbg loop_init msgs = Inr s"
  using handle_blocks_renders [OF assms] by (simp add: receive_loop_examined)

lemma same_markup_handle_block:
  "markup_error w' = markup_error w \<Longrightarrow> handle_block w' dbg s b = handle_block w dbg s b"
  by (cases b) simp_all

lemma same_markup_handle_blocks:
  assumes "markup_error w' = markup_error w"
  shows "handle_blocks w' dbg s bs = handle_blocks w dbg s bs"
proof (induction bs arbitrary: s)
  case Nil
  show ?case by simp
next
  case (Cons b bs)
  show ?case
    using same_markup_handle_block [OF assms, of dbg s b] Cons.IH
    by (simp split: sum.splits)
qed

lemma same_markup_report_error:
  assumes "markup_error w' = markup_error w"
  shows "report_error w' e = report_error w e"
  using assms by (simp add: report_error_def)

lemma examined_drop:
  "assistant_content m = [] \<Longrightarrow> examined (pre @ m # post) = examined (pre @ post)"
  by (simp add: examined_def)

lemma tool_panel_no_answer: "is_tool_panel e \<Longrightarrow> \<not> is_answer e"
  by (cases e) simp_all

lemma tool_panel_progress: "is_tool_panel e \<Longrightarrow> is_query_progress e"
  by (cases e) simp_all

lemma show_response_answer:
  "\<exists>stats. show_response dbg s = final_answer (response_text s) # stats
     \<and> (\<forall>e \<in> set stats. \<not> is_answer e)"
  by (simp add: show_response_def final_answer_def)

lemma report_error_no_answer: "\<forall>e \<in> set (snd (report_error w m)). \<not> is_answer e"
  by (simp add: report_error_def split: option.splits)

lemma report_error_oversized:
  "is_oversized e \<Longrightarrow> report_error w e = (None, [OversizedError])"
  by (simp add: report_error_def)

lemma report_error_rendered:
  "\<not> is_oversized e \<Longrightarrow> markup_error w (query_failed_markup e) = None
     \<Longrightarrow> report_error w e = (None, [QueryFailed e, QueryHint])"
  by (simp add: report_error_def)

lemma report_error_raises:
  "\<not> is_oversized e \<Longrightarrow> markup_error w (query_failed_markup e) = Some m
     \<Longrightarrow> report_error w e = (Some m, [])"
  by (simp add: report_error_def)

lemma query_agent_completed:
  assumes "agent_reply w (queries_sent st) (enhanced_prompt q) = Stream msgs Completed"
    and "receive_loop w (show_react_steps st) loop_init msgs = Inr s"
  shows "query_agent w st q =
           (None, Processing # CallQuery (enhanced_prompt q) # printed s
                    @ show_response (show_react_steps st) s)"
  using assms by (simp add: query_agent_def)

lemma query_agent_raised:
  assumes "agent_reply w (queries_sent st) (enhanced_prompt q) = Stream msgs (Raised e)"
    and "receive_loop w (show_react_steps st) loop_init msgs = Inr s"
  shows "query_agent w st q =
           (fst (report_error w e),
            Processing # CallQuery (enhanced_prompt q) # printed s @ snd (report_error w e))"
  using assms by (simp add: query_agent_def)

lemma query_agent_print_raised:
  assumes "agent_reply w (queries_sent st) (enhanced_prompt q) = Stream msgs fin"
    and "receive_loop w (show_react_steps st) loop_init msgs = Inl (m, s)"
  shows "query_agent w st q =
           (fst (report_error w m),
            Processing # CallQuery (enhanced_prompt q) # printed s @ snd (report_error w m))"
  using assms by (simp add: query_agent_def)

lemma query_agent_query_raises:
  assumes "agent_reply w (queries_sent st) (enhanced_prompt q) = QueryRaises e"
  shows "query_agent w st q =
           (fst (report_error w e),
            Processing # CallQuery (enhanced_prompt q) # snd (report_error w e))"
  using assms by (simp add: query_agent_def)

lemma query_agent_failed:
  assumes "agent_reply w (queries_sent st) (enhanced_prompt q) = QueryRaises e
         \<or> (agent_reply w (queries_sent st) (enhanced_prompt q) = Stream msgs (Raised e)
            \<and> (show_react_steps st \<longrightarrow> (\<forall>b \<in> set (examined msgs). block_renders w b)))"
  shows "fst (query_agent w st q) = fst (report_error w e)
       \<and> (\<exists>shown. snd (query_agent w st q) = shown @ snd (report_error w e)
                  \<and> (\<forall>x \<in> set shown. is_query_progress x))"
  using assms
proof
  assume a: "agent_reply w (queries_sent st) (enhanced_prompt q) = QueryRaises e"
  have "snd (query_agent w st q)
      = [Processing, CallQuery (enhanced_prompt q)] @ snd (report_error w e)"
    by (simp add: query_agent_query_raises [OF a])
  moreover have "\<forall>x \<in> set [Processing, CallQuery (enhanced_prompt q)]. is_query_progress x"
    by simp
  ultimately show ?thesis
    using query_agent_query_raises [OF a] by (metis fst_conv)
next
  assume a: "agent_reply w (queries_sent st) (enhanced_prompt q) = Stream msgs (Raised e)
            \<and> (show_react_steps st \<longrightarrow> (\<forall>b \<in> set (examined msgs). block_renders w b))"
  obtain s where s: "receive_loop w (show_react_steps st) loop_init msgs = Inr s"
    using receive_loop_renders [of "show_react_steps st" msgs w] a by blast
  have q: "query_agent w st q =
      (fst (report_error w e),
       Processing # CallQuery (enhanced_prompt q) # printed s @ snd (report_error w e))"
    using query_agent_raised a s by blast
  have "snd (query_agent w st q)
      = (Processing # CallQuery (enhanced_prompt q) # printed s) @ snd (report_error w e)"
    by (simp add: q)
  moreover have "\<forall>x \<in> set (Processing # CallQuery (enhanced_prompt q) # printed s).
      is_query_progress x"
    using receive_loop_done [OF s] tool_panel_progress by auto
  ultimately show ?thesis using q by (metis fst_conv)
qed

section \<open>Substrings\<close>

lemma startswith_iff: "startswith s p \<longleftrightarrow> (\<exists>b. s = p @ b)"
  by (induction s p rule: startswith.induct) auto

lemma contains_iff: "contains s sub \<longleftrightarrow> (\<exists>a b. s = a @ sub @ b)"
proof (induction s)
  case Nil
  show ?case by auto
next
  case (Cons c cs)
  have "(\<exists>a b. c # cs = a @ sub @ b)
          \<longleftrightarrow> (\<exists>b. c # cs = sub @ b) \<or> (\<exists>a b. cs = a @ sub @ b)"
  proof
    assume "\<exists>a b. c # cs = a @ sub @ b"
    then obtain a b where ab: "c # cs = a @ sub @ b" by blast
    show "(\<exists>b. c # cs = sub @ b) \<or> (\<exists>a b. cs = a @ sub @ b)"
    proof (cases a)
      case Nil
      then show ?thesis using ab by auto
    next
      case (Cons x a')
      then have "cs = a' @ sub @ b" using ab by simp
      then show ?thesis by blast
    qed
  next
    assume "(\<exists>b. c # cs = sub @ b) \<or> (\<exists>a b. cs = a @ sub @ b)"
    then show "\<exists>a b. c # cs = a @ sub @ b"
    proof
      assume "\<exists>b. c # cs = sub @ b"
      then obtain b where "c # cs = [] @ sub @ b" by auto
      then show ?thesis by blast
    next
      assume "\<exists>a b. cs = a @ sub @ b"
      then obtain a b where "c # cs = (c # a) @ sub @ b" by auto
      then show ?thesis by blast
    qed
  qed
  then show ?case using Cons.IH by (simp add: startswith_iff)
qed

section \<open>Dispatch of a line\<close>


lemma strip_debug: "strip (u ''/debug'') = u ''/debug''"
  by (simp add: strip_def u_def py_isspace_def)



lemma process_command_empty:
  "strip s = [] \<Longrightarrow> process_command w st s = (Inr True, st, [])"
  by (simp add: process_command_def)

lemma process_command_quit:
  "strip s = u ''/quit'' \<or> strip s = u ''/exit'' \<or> strip s = u ''/q''
     \<Longrightarrow> process_command w st s = (Inr False, st, [Goodbye])"
  by (auto simp: process_command_def u_def)

lemma process_command_help:
  "strip s = u ''/help'' \<Longrightarrow> process_command w st s = (Inr True, st, [HelpTables])"
  by (simp add: process_command_def u_def)

lemma process_command_list:
  "strip s = u ''/list''
     \<Longrightarrow> process_command w st s
           = (returns_true (fst (list_documents w)), st, snd (list_documents w))"
  by (simp add: process_command_def u_def)

lemma process_command_status:
  "strip s = u ''/status''
     \<Longrightarrow> process_command w st s = (Inr True, st, [StatusPanel (session_active st)])"
  by (simp add: process_command_def u_def)

lemma process_command_debug:
  "strip s = u ''/debug''
     \<Longrightarrow> process_command w st s
           = (Inr True, st\<lparr>show_react_steps := \<not> show_react_steps st\<rparr>,
              DebugToggled (\<not> show_react_steps st)
                # (if \<not> show_react_steps st then [DebugHint] else []))"
  by (simp add: process_command_def u_def Let_def)

lemma process_command_clear:
  "strip s = u ''/clear'' \<Longrightarrow> process_command w st s = (Inr True, st, [ClearScreen])"
  by (simp add: process_command_def u_def)

lemma process_command_free:
  assumes "strip s \<noteq> []" and "strip s \<notin> set command_tokens"
  shows "process_command w st s
           = (returns_true (fst (query_agent w st (strip s))),
              st\<lparr>queries_sent := queries_sent st + 1\<rparr>,
              snd (query_agent w st (strip s)))"
  using assms by (simp add: process_command_def command_tokens_def Let_def)

section \<open>Steps of the main loop\<close>

lemma main_loop_nil: "main_loop w st [] = (AwaitInput, st, [AskInput])"
  by (simp add: main_loop_def)

lemma main_loop_true:
  assumes "process_command w st s = (Inr True, st', out)"
  shows "main_loop w st (Line s # ins)
           = (fst (main_loop w st' ins), fst (snd (main_loop w st' ins)),
              AskInput # out @ snd (snd (main_loop w st' ins)))"
  using assms by (simp add: main_loop_def Let_def)

lemma main_loop_false:
  assumes "process_command w st s = (Inr False, st', out)"
  shows "main_loop w st (Line s # ins) = (Break, st', AskInput # out)"
  using assms by (simp add: main_loop_def Let_def)

lemma main_loop_uncaught:
  assumes "process_command w st s = (Inl e, st', out)"
    and "markup_error w (loop_error_markup e) = Some m"
  shows "main_loop w st (Line s # ins) = (Uncaught m, st', AskInput # out)"
  using assms by (simp add: main_loop_def Let_def)

lemma main_loop_caught:
  assumes "process_command w st s = (Inl e, st', out)"
    and "markup_error w (loop_error_markup e) = None"
  shows "main_loop w st (Line s # ins)
           = (fst (main_loop w st' ins), fst (snd (main_loop w st' ins)),
              AskInput # out @ LoopError e # snd (snd (main_loop w st' ins)))"
  using assms by (simp add: main_loop_def Let_def)

lemma main_loop_line_events:
  "\<exists>rest. snd (snd (main_loop w st (Line s # ins)))
     = AskInput # snd (snd (process_command w st s)) @ rest"
  by (simp add: main_loop_def Let_def split: sum.splits option.splits)





section \<open>Sizes and rows\<close>

lemma round_half_even_near:
  assumes "0 < b"
  shows "2 * a \<le> 2 * round_half_even a b * b + b \<and> 2 * round_half_even a b * b \<le> 2 * a + b"
proof -
  define q where "q = a div b"
  define r where "r = a mod b"
  define t where "t = round_half_even a b"
  have a: "a = q * b + r" by (simp add: q_def r_def)
  have r: "r < b" using assms by (simp add: r_def)
  have e: "t = (if 2 * r < b then q else if b < 2 * r then q + 1 else if even q then q else q + 1)"
    by (simp add: t_def round_half_even_def q_def r_def Let_def)
  consider (down) "2 * r < b" "t = q" | (up) "b < 2 * r" "t = q + 1"
    | (tie) "2 * r = b" "t = q \<or> t = q + 1"
    using e by (cases "2 * r < b"; cases "b < 2 * r"; cases "even q") auto
  then have "2 * a \<le> 2 * t * b + b \<and> 2 * t * b \<le> 2 * a + b"
  proof cases
    case down
    then show ?thesis using r by (simp add: a algebra_simps)
  next
    case up
    then show ?thesis using r by (simp add: a algebra_simps)
  next
    case tie
    then show ?thesis using r by (auto simp: a algebra_simps)
  qed
  then show ?thesis by (simp add: t_def)
qed

lemma round53_small: "n < 2 ^ 53 \<Longrightarrow> round53 n = n"
  by (simp add: round53_def)

lemma dec_digit: "d < 10 \<Longrightarrow> dec d = [48 + d]"
  by (simp add: dec.simps)

lemma fmt_1f_digits: "fmt_1f t = dec (t div 10) @ u ''.'' @ [48 + t mod 10]"
  by (simp add: fmt_1f_def dec_digit)

lemma add_rows_ok:
  assumes "\<forall>f \<in> set fs. \<exists>sz. st_size f = Inr sz"
  shows "add_rows i fs = Inr (map row_of (List.enumerate i fs))"
  using assms
proof (induction fs arbitrary: i)
  case Nil
  show ?case by simp
next
  case (Cons f fs)
  obtain sz where sz: "st_size f = Inr sz" using Cons.prems by auto
  have "add_rows (i + 1) fs = Inr (map row_of (List.enumerate (i + 1) fs))"
    using Cons.IH Cons.prems by simp
  then show ?case using sz by (simp add: row_of_def)
qed

lemma format_size_500: "format_size 500 = u ''500 B''"
  by (simp add: format_size_def u_def dec.simps)

lemma format_size_2048: "format_size 2048 = u ''2.0 KB''"
  by (simp add: format_size_def tenths_def round53_def round_half_even_def fmt_1f_def u_def
      dec.simps)

lemma format_size_1048576: "format_size 1048576 = u ''1.0 MB''"
  by (simp add: format_size_def tenths_def round53_def round_half_even_def fmt_1f_def u_def
      dec.simps)

lemma first_markup_error_none:
  "(\<forall>c \<in> set cs. markup_error w c = None) \<Longrightarrow> first_markup_error w cs = None"
  by (induction cs) simp_all

lemma listed_demo:
  "listed demo_files =
     [\<lparr>is_file = True, name = u ''c.pdf'', st_size = Inr 1048576, rel_parent = u ''.''\<rparr>,
      \<lparr>is_file = True, name = u ''a.txt'', st_size = Inr 500, rel_parent = u ''sub''\<rparr>,
      \<lparr>is_file = True, name = u ''b.xlsx'', st_size = Inr 2048, rel_parent = u ''.''\<rparr>]"
  by (simp add: listed_def demo_files_def u_def)

section \<open>What the main loop keeps\<close>

lemma report_error_no_disconnect: "CallDisconnect \<notin> set (snd (report_error w e))"
  by (simp add: report_error_def split: option.splits)

lemma query_agent_no_disconnect: "CallDisconnect \<notin> set (snd (query_agent w st q))"
proof (cases "agent_reply w (queries_sent st) (enhanced_prompt q)")
  case (QueryRaises e)
  then show ?thesis
    using report_error_no_disconnect [of w e] by (simp add: query_agent_query_raises)
next
  case (Stream msgs fin)
  show ?thesis
  proof (cases "receive_loop w (show_react_steps st) loop_init msgs")
    case (Inl x)
    obtain m s where x: "x = (m, s)" by (cases x)
    have p: "CallDisconnect \<notin> set (printed s)"
      using receive_loop_raised [of w "show_react_steps st" msgs m s] Inl x by auto
    show ?thesis
      using query_agent_print_raised [of w st q msgs fin m s] Stream Inl x p
        report_error_no_disconnect [of w m]
      by simp
  next
    case (Inr s)
    have p: "CallDisconnect \<notin> set (printed s)"
      using receive_loop_done [OF Inr] by auto
    show ?thesis
    proof (cases fin)
      case Completed
      then show ?thesis
        using query_agent_completed [of w st q msgs s] Stream Inr p
        by (simp add: show_response_def)
    next
      case (Raised e)
      then show ?thesis
        using query_agent_raised [of w st q msgs e s] Stream Inr p
          report_error_no_disconnect [of w e]
        by simp
    qed
  qed
qed

lemma list_documents_no_disconnect: "CallDisconnect \<notin> set (snd (list_documents w))"
  by (simp add: list_documents_def list_failed_def Let_def split: sum.splits option.splits)

lemma process_command_keeps:
  "agent_set (fst (snd (process_command w st s))) = agent_set st
   \<and> session_active (fst (snd (process_command w st s))) = session_active st
   \<and> CallDisconnect \<notin> set (snd (snd (process_command w st s)))"
  by (simp add: process_command_def Let_def query_agent_no_disconnect
      list_documents_no_disconnect)

lemma main_loop_at_keeps:
  "agent_set (fst (snd (main_loop_at pr w st ins))) = agent_set st
   \<and> session_active (fst (snd (main_loop_at pr w st ins))) = session_active st
   \<and> CallDisconnect \<notin> set (snd (snd (main_loop_at pr w st ins)))"
proof (induction ins arbitrary: pr st)
  case Nil
  show ?case by (cases pr) simp_all
next
  case (Cons i ins)
  show ?case
  proof (cases pr)
    case ConfirmPrompt
    show ?thesis
    proof (cases i)
      case (Line c)
      then show ?thesis
        using ConfirmPrompt Cons.IH [of InputPrompt st] Cons.IH [of ConfirmPrompt st]
        by (simp add: Let_def)
    qed (simp_all add: ConfirmPrompt)
  next
    case InputPrompt
    show ?thesis
    proof (cases i)
      case (Line s)
      let ?r = "process_command w st s"
      note k = process_command_keeps [of w st s]
      note ih = Cons.IH [of InputPrompt "fst (snd ?r)"]
      show ?thesis
        using InputPrompt Line k ih
        by (simp add: Let_def split: sum.splits option.splits)
    next
      case Interrupt
      then show ?thesis
        using InputPrompt Cons.IH [of ConfirmPrompt st] by (simp add: Let_def)
    next
      case (InputError e)
      then show ?thesis
        using InputPrompt Cons.IH [of InputPrompt st]
        by (simp add: Let_def split: option.splits)
    qed
  qed
qed

lemma main_loop_keeps:
  "agent_set (fst (snd (main_loop w st ins))) = agent_set st
   \<and> session_active (fst (snd (main_loop w st ins))) = session_active st
   \<and> CallDisconnect \<notin> set (snd (snd (main_loop w st ins)))"
  unfolding main_loop_def by (rule main_loop_at_keeps)

lemma run_connected:
  assumes "api_key w" and "connect_error w = None"
  shows "run w ins =
     (case fst (main_loop w connected_cli ins) of
        AwaitInput \<Rightarrow>
          (Waiting, [Welcome, CallConnect, InitOk, StartChat]
                      @ snd (snd (main_loop w connected_cli ins)))
      | AwaitConfirm \<Rightarrow>
          (Waiting, [Welcome, CallConnect, InitOk, StartChat]
                      @ snd (snd (main_loop w connected_cli ins)))
      | Break \<Rightarrow>
          (Exit 0, [Welcome, CallConnect, InitOk, StartChat]
                     @ snd (snd (main_loop w connected_cli ins))
                     @ [Disconnecting, CallDisconnect, DisconnectDone])
      | Uncaught e \<Rightarrow>
          (Exit 1, [Welcome, CallConnect, InitOk, StartChat]
                     @ snd (snd (main_loop w connected_cli ins))
                     @ [Disconnecting, CallDisconnect, DisconnectDone, Traceback e]))"
proof -
  have d: "disconnect_if_active (fst (snd (main_loop w connected_cli ins)))
      = [Disconnecting, CallDisconnect, DisconnectDone]"
    using main_loop_keeps [of w connected_cli ins]
    by (simp add: disconnect_if_active_def connected_cli_def)
  have c: "init_cli\<lparr>agent_set := True, session_active := True\<rparr> = connected_cli"
    by (simp add: connected_cli_def)
  show ?thesis
    using assms by (simp add: run_def initialize_agent_def c d Let_def split: loop_end.splits)
qed





section \<open>The final answer\<close>

text \<open>
  C1, as the code has it. When the stream of a query completes and, in debug mode, the
  console library renders the panel of every tool block, exactly one answer is rendered,
  after everything else the query shows except the tool statistics: the literal
  concatenation, in arrival order, of the texts of the Text blocks of the assistant
  messages, or the notice that there is no textual response when that concatenation is
  empty. The loop treats the stream as the single list of the blocks of its assistant
  messages, so the grouping into messages does not matter. When the stream breaks off
  with a failure no answer is rendered at all. What happens when a panel is not rendered
  is left out here.
\<close>

theorem final_answer_is_concatenation:
  assumes "agent_reply w (queries_sent st) (enhanced_prompt q) = Stream msgs fin"
    and "show_react_steps st \<longrightarrow> (\<forall>b \<in> set (examined msgs). block_renders w b)"
  shows "(fin = Completed \<longrightarrow>
            fst (query_agent w st q) = None
            \<and> (\<exists>shown stats.
                 snd (query_agent w st q)
                   = shown @ [final_answer (text_of_blocks (examined msgs))] @ stats
                 \<and> (\<forall>e \<in> set shown. \<not> is_answer e) \<and> (\<forall>e \<in> set stats. \<not> is_answer e)))
       \<and> (fin \<noteq> Completed \<longrightarrow> (\<forall>e \<in> set (snd (query_agent w st q)). \<not> is_answer e))
       \<and> receive_loop w dbg loop_init msgs
            = receive_loop w dbg loop_init [AssistantMessage (examined msgs)]
       \<and> final_answer [] = NoTextResponse"
proof -
  let ?d = "show_react_steps st"
  obtain s where s: "receive_loop w ?d loop_init msgs = Inr s"
    using receive_loop_renders [OF assms(2)] by blast
  note f = receive_loop_done [OF s]
  have panels: "\<forall>e \<in> set (Processing # CallQuery (enhanced_prompt q) # printed s). \<not> is_answer e"
    using f tool_panel_no_answer by auto
  show ?thesis
  proof (intro conjI impI)
    assume fin: "fin = Completed"
    have q: "query_agent w st q =
        (None, Processing # CallQuery (enhanced_prompt q) # printed s @ show_response ?d s)"
      using query_agent_completed assms(1) fin s by simp
    show "fst (query_agent w st q) = None" by (simp add: q)
    obtain stats where stats: "show_response ?d s = final_answer (response_text s) # stats"
        "\<forall>e \<in> set stats. \<not> is_answer e"
      using show_response_answer by blast
    have "snd (query_agent w st q)
        = (Processing # CallQuery (enhanced_prompt q) # printed s)
          @ [final_answer (text_of_blocks (examined msgs))] @ stats"
      using q stats(1) f by simp
    then show "\<exists>shown stats.
        snd (query_agent w st q) = shown @ [final_answer (text_of_blocks (examined msgs))] @ stats
        \<and> (\<forall>e \<in> set shown. \<not> is_answer e) \<and> (\<forall>e \<in> set stats. \<not> is_answer e)"
      using panels stats(2) by blast
  next
    assume "fin \<noteq> Completed"
    then obtain e where "fin = Raised e" by (cases fin) auto
    then have "snd (query_agent w st q) =
        (Processing # CallQuery (enhanced_prompt q) # printed s) @ snd (report_error w e)"
      using query_agent_raised assms(1) s by simp
    then show "\<forall>e \<in> set (snd (query_agent w st q)). \<not> is_answer e"
      using panels report_error_no_answer [of w e] by auto
  next
    show "receive_loop w dbg loop_init msgs
            = receive_loop w dbg loop_init [AssistantMessage (examined msgs)]"
      by (simp add: receive_loop_examined examined_def)
  next
    show "final_answer [] = NoTextResponse" by (simp add: final_answer_def)
  qed
qed

theorem final_answer_is_concatenation_witness:
  "agent_reply demo_env (queries_sent connected_cli) (enhanced_prompt (u ''hi''))
     = Stream demo_stream Completed
   \<and> text_of_blocks (examined demo_stream) = u ''AB''
   \<and> fst (query_agent demo_env connected_cli (u ''hi'')) = None
   \<and> (\<exists>shown stats.
         snd (query_agent demo_env connected_cli (u ''hi''))
           = shown @ [AnswerPanel (u ''AB'')] @ stats
         \<and> (\<forall>e \<in> set shown. \<not> is_answer e) \<and> (\<forall>e \<in> set stats. \<not> is_answer e))"
proof -
  have h: "agent_reply demo_env (queries_sent connected_cli) (enhanced_prompt (u ''hi''))
     = Stream demo_stream Completed"
    by (simp add: demo_env_def demo_reply_def connected_cli_def init_cli_def)
  have r: "show_react_steps connected_cli
      \<longrightarrow> (\<forall>b \<in> set (examined demo_stream). block_renders demo_env b)"
    by (simp add: connected_cli_def init_cli_def)
  have t: "text_of_blocks (examined demo_stream) = u ''AB''"
    by (simp add: demo_stream_def examined_def text_of_blocks_def u_def)
  have f: "final_answer (u ''AB'') = AnswerPanel (u ''AB'')"
    by (simp add: final_answer_def u_def)
  show ?thesis
    using h t final_answer_is_concatenation [OF h r, of False] by (simp add: f)
qed

text \<open>
  C1 as it is stated speaks of the Text blocks of all messages. A Text block carried by
  a user message is not part of the answer: here the only Text block of the stream is
  \<open>A\<close>, and the notice that there is no textual response is rendered.
\<close>

theorem text_outside_assistant_counterexample:
  "agent_reply user_text_env (queries_sent connected_cli) (enhanced_prompt (u ''hi''))
     = Stream user_text_stream Completed
   \<and> text_of_blocks (carried user_text_stream) = u ''A''
   \<and> query_agent user_text_env connected_cli (u ''hi'')
       = (None, [Processing, CallQuery (enhanced_prompt (u ''hi'')), NoTextResponse])"
  by (simp add: user_text_env_def user_text_reply_def user_text_stream_def carried_def
      text_of_blocks_def query_agent_def loop_init_def show_response_def
      connected_cli_def init_cli_def)

section \<open>The tool counter\<close>

text \<open>
  C2. The counter of a query starts at 0, whatever the state left by earlier queries.
  When the loop over the stream completes, the counter is the number of tool invocations
  examined if the debug mode is on, and 0 if it is off. When a panel print raises, which
  happens in debug mode only, the loop stops at that block with the counter at the number
  of tool invocations up to and including it. With the debug mode off the loop always
  completes, the counter is 0 after every prefix of the blocks, nothing is printed during
  the stream, and the query shows its answer only. With the debug mode on and every
  panel rendered, the statistics line reports the count.
\<close>

theorem tool_counter:
  "tool_use_count loop_init = 0
   \<and> (receive_loop w dbg loop_init msgs = Inr s \<longrightarrow>
        tool_use_count s = (if dbg then length (filter is_tool_use (examined msgs)) else 0))
   \<and> (receive_loop w dbg loop_init msgs = Inl (m, s) \<longrightarrow>
        dbg \<and> (\<exists>k<length (examined msgs).
                 \<not> block_renders w (examined msgs ! k)
                 \<and> tool_use_count s
                     = length (filter is_tool_use (take (Suc k) (examined msgs)))))
   \<and> (\<exists>s'. handle_blocks w False loop_init (take n (examined msgs)) = Inr s'
            \<and> tool_use_count s' = 0 \<and> printed s' = [])
   \<and> (\<exists>s'. receive_loop w False loop_init msgs = Inr s'
            \<and> tool_use_count s' = 0 \<and> printed s' = [])
   \<and> (agent_reply w (queries_sent st) (enhanced_prompt q) = Stream msgs Completed
        \<and> show_react_steps st \<and> (\<forall>b \<in> set (examined msgs). block_renders w b)
        \<and> 0 < length (filter is_tool_use (examined msgs))
      \<longrightarrow> last (snd (query_agent w st q))
            = ToolStats (length (filter is_tool_use (examined msgs))))
   \<and> (agent_reply w (queries_sent st) (enhanced_prompt q) = Stream msgs Completed
        \<and> \<not> show_react_steps st
      \<longrightarrow> query_agent w st q
            = (None, [Processing, CallQuery (enhanced_prompt q),
                      final_answer (text_of_blocks (examined msgs))]))"
proof (intro conjI impI)
  show "tool_use_count loop_init = 0" by (simp add: loop_init_def)
next
  assume "receive_loop w dbg loop_init msgs = Inr s"
  then show "tool_use_count s = (if dbg then length (filter is_tool_use (examined msgs)) else 0)"
    using receive_loop_done by blast
next
  assume a: "receive_loop w dbg loop_init msgs = Inl (m, s)"
  show "dbg" using receive_loop_raised [OF a] by blast
  show "\<exists>k<length (examined msgs).
          \<not> block_renders w (examined msgs ! k)
          \<and> tool_use_count s = length (filter is_tool_use (take (Suc k) (examined msgs)))"
    using receive_loop_raised [OF a] by blast
next
  obtain s' where s': "handle_blocks w False loop_init (take n (examined msgs)) = Inr s'"
    using handle_blocks_renders [of False "take n (examined msgs)" w loop_init] by auto
  have "tool_use_count s' = 0 \<and> printed s' = []"
    using handle_blocks_done [OF s'] by (simp add: loop_init_def)
  then show "\<exists>s'. handle_blocks w False loop_init (take n (examined msgs)) = Inr s'
            \<and> tool_use_count s' = 0 \<and> printed s' = []"
    using s' by blast
next
  obtain s' where s': "receive_loop w False loop_init msgs = Inr s'"
    using receive_loop_renders [of False msgs w] by auto
  have "tool_use_count s' = 0 \<and> printed s' = []"
    using receive_loop_done [OF s'] by simp
  then show "\<exists>s'. receive_loop w False loop_init msgs = Inr s'
            \<and> tool_use_count s' = 0 \<and> printed s' = []"
    using s' by blast
next
  assume h: "agent_reply w (queries_sent st) (enhanced_prompt q) = Stream msgs Completed
        \<and> show_react_steps st \<and> (\<forall>b \<in> set (examined msgs). block_renders w b)
        \<and> 0 < length (filter is_tool_use (examined msgs))"
  obtain s' where s': "receive_loop w (show_react_steps st) loop_init msgs = Inr s'"
    using receive_loop_renders [of "show_react_steps st" msgs w] h by auto
  have c: "tool_use_count s' = length (filter is_tool_use (examined msgs))"
    using receive_loop_done [OF s'] h by simp
  show "last (snd (query_agent w st q)) = ToolStats (length (filter is_tool_use (examined msgs)))"
    using query_agent_completed [of w st q msgs s'] h s' c
    by (simp add: show_response_def)
next
  assume h: "agent_reply w (queries_sent st) (enhanced_prompt q) = Stream msgs Completed
        \<and> \<not> show_react_steps st"
  obtain s' where s': "receive_loop w (show_react_steps st) loop_init msgs = Inr s'"
    using receive_loop_renders [of "show_react_steps st" msgs w] h by auto
  note f = receive_loop_done [OF s']
  show "query_agent w st q
            = (None, [Processing, CallQuery (enhanced_prompt q),
                      final_answer (text_of_blocks (examined msgs))])"
    using query_agent_completed [of w st q msgs s'] h s' f
    by (simp add: show_response_def final_answer_def)
qed

theorem tool_counter_witness:
  "agent_reply demo_env (queries_sent (connected_cli\<lparr>show_react_steps := True\<rparr>))
       (enhanced_prompt (u ''hi'')) = Stream demo_stream Completed
   \<and> show_react_steps (connected_cli\<lparr>show_react_steps := True\<rparr>)
   \<and> 0 < length (filter is_tool_use (examined demo_stream))
   \<and> last (snd (query_agent demo_env (connected_cli\<lparr>show_react_steps := True\<rparr>) (u ''hi'')))
       = ToolStats 1"
proof -
  let ?st = "connected_cli\<lparr>show_react_steps := True\<rparr>"
  have h: "agent_reply demo_env (queries_sent ?st) (enhanced_prompt (u ''hi''))
     = Stream demo_stream Completed"
    by (simp add: demo_env_def demo_reply_def connected_cli_def init_cli_def)
  have n: "length (filter is_tool_use (examined demo_stream)) = 1"
    by (simp add: demo_stream_def examined_def)
  have r: "\<forall>b \<in> set (examined demo_stream). block_renders demo_env b"
    by (simp add: demo_stream_def examined_def demo_env_def renders_all_def)
  note t = tool_counter [of demo_env False demo_stream loop_init "[]" 0 ?st "u ''hi''",
      THEN conjunct2, THEN conjunct2, THEN conjunct2, THEN conjunct2, THEN conjunct2,
      THEN conjunct1, rule_format]
  have "last (snd (query_agent demo_env ?st (u ''hi''))) = ToolStats 1"
    using t h r n by simp
  then show ?thesis using h n by simp
qed

section \<open>The preview of a tool result\<close>

text \<open>
  C3. For a tool result of length \<open>L\<close> the preview string has length \<open>L\<close> when
  \<open>L \<le> 200\<close> and \<open>200\<close> plus the length of the ellipsis (three characters) otherwise,
  and a tool result leaves the answer buffer as it is. But the panel is not given the
  preview as text: the preview is spliced between \<^verbatim>\<open>[green]\<close> and \<^verbatim>\<open>[/green]\<close> and the whole
  is read as markup. For the content \<^verbatim>\<open>[bold]hi[/bold]\<close> the console is handed
  \<^verbatim>\<open>[green][bold]hi[/bold][/green]\<close>, in which the brackets are tags; for the content
  \<^verbatim>\<open>out [/INST] done\<close> the print raises, no panel is shown, the print of the failure raises
  again and the exception leaves \<^verbatim>\<open>query_agent\<close>.
\<close>

theorem preview_length_and_markup:
  "length (result_preview c) = (if 200 < length c then 200 + length (u ''...'') else length c)
   \<and> length (result_preview c) = min (length c) 200 + (if 200 < length c then 3 else 0)
   \<and> handle_block w True s (ToolResultBlock c)
       = (case markup_error w (u ''[green]'' @ result_preview c @ u ''[/green]'') of
            Some m \<Rightarrow> Inl (m, s)
          | None \<Rightarrow>
              Inr (s\<lparr>printed := printed s
                       @ [ToolResultPanel (tool_use_count s) (result_preview c)]\<rparr>))
   \<and> (handle_block w dbg s (ToolResultBlock c) = Inr s' \<longrightarrow> response_text s' = response_text s)
   \<and> (receive_loop w dbg loop_init msgs = Inr s' \<longrightarrow>
        response_text s' = text_of_blocks (examined msgs))
   \<and> tool_result_markup (result_preview (u ''[bold]hi[/bold]''))
       = u ''[green][bold]hi[/bold][/green]''
   \<and> handle_block markup_env True loop_init (ToolResultBlock (u ''out [/INST] done''))
       = Inl (closing_tag_error (u ''[/INST]'') 11, loop_init)
   \<and> query_agent markup_env (connected_cli\<lparr>show_react_steps := True, queries_sent := 1\<rparr>)
         (u ''hi'')
       = (Some (closing_tag_error (u ''[/INST]'') 23),
          [Processing, CallQuery (enhanced_prompt (u ''hi''))])"
proof (intro conjI impI)
  show "length (result_preview c) = (if 200 < length c then 200 + length (u ''...'') else length c)"
    by (simp add: result_preview_def u_def)
  show "length (result_preview c) = min (length c) 200 + (if 200 < length c then 3 else 0)"
    by (simp add: result_preview_def u_def)
  show "handle_block w True s (ToolResultBlock c)
       = (case markup_error w (u ''[green]'' @ result_preview c @ u ''[/green]'') of
            Some m \<Rightarrow> Inl (m, s)
          | None \<Rightarrow>
              Inr (s\<lparr>printed := printed s
                       @ [ToolResultPanel (tool_use_count s) (result_preview c)]\<rparr>))"
    by (simp add: tool_result_markup_def)
  show "tool_result_markup (result_preview (u ''[bold]hi[/bold]''))
       = u ''[green][bold]hi[/bold][/green]''"
    by (simp add: tool_result_markup_def result_preview_def u_def)
next
  assume "handle_block w dbg s (ToolResultBlock c) = Inr s'"
  then show "response_text s' = response_text s"
    using handle_block_done [of w dbg s "ToolResultBlock c" s'] by simp
next
  assume "receive_loop w dbg loop_init msgs = Inr s'"
  then show "response_text s' = text_of_blocks (examined msgs)"
    using receive_loop_done by blast
next
  have p: "result_preview (u ''out [/INST] done'') = u ''out [/INST] done''"
    by (simp add: result_preview_def u_def)
  have e: "markup_error markup_env (tool_result_markup (u ''out [/INST] done''))
      = Some (closing_tag_error (u ''[/INST]'') 11)"
    by (simp add: markup_env_def example_markup_error_def tool_result_markup_def
        query_failed_markup_def loop_error_markup_def closing_tag_error_def u_def dec.simps)
  show b: "handle_block markup_env True loop_init (ToolResultBlock (u ''out [/INST] done''))
       = Inl (closing_tag_error (u ''[/INST]'') 11, loop_init)"
    by (simp add: p e)
  have f: "markup_error markup_env (query_failed_markup (closing_tag_error (u ''[/INST]'') 11))
      = Some (closing_tag_error (u ''[/INST]'') 23)"
    by (simp add: markup_env_def example_markup_error_def tool_result_markup_def
        query_failed_markup_def loop_error_markup_def closing_tag_error_def u_def dec.simps)
  have o: "\<not> is_oversized (closing_tag_error (u ''[/INST]'') 11)"
    by (simp add: is_oversized_def closing_tag_error_def u_def dec.simps)
  have r: "report_error markup_env (closing_tag_error (u ''[/INST]'') 11)
      = (Some (closing_tag_error (u ''[/INST]'') 23), [])"
    by (simp add: report_error_def o f)
  let ?st = "connected_cli\<lparr>show_react_steps := True, queries_sent := 1\<rparr>"
  have a: "agent_reply markup_env (queries_sent ?st) (enhanced_prompt (u ''hi''))
      = Stream [AssistantMessage [TextBlock (u ''A''),
                                  ToolResultBlock (u ''out [/INST] done'')]] Completed"
    by (simp add: markup_env_def markup_reply_def)
  have l: "receive_loop markup_env (show_react_steps ?st) loop_init
        [AssistantMessage [TextBlock (u ''A''), ToolResultBlock (u ''out [/INST] done'')]]
      = Inl (closing_tag_error (u ''[/INST]'') 11, loop_init\<lparr>response_text := u ''A''\<rparr>)"
    by (simp add: p e loop_init_def)
  show "query_agent markup_env ?st (u ''hi'')
       = (Some (closing_tag_error (u ''[/INST]'') 23),
          [Processing, CallQuery (enhanced_prompt (u ''hi''))])"
    using query_agent_print_raised [OF a l] by (simp add: r loop_init_def)
qed

theorem preview_length_and_markup_witness:
  "handle_block demo_env True loop_init (ToolResultBlock (replicate 300 121))
     = Inr (loop_init\<lparr>printed := [ToolResultPanel 0 (result_preview (replicate 300 121))]\<rparr>)
   \<and> response_text
        (loop_init\<lparr>printed := [ToolResultPanel 0 (result_preview (replicate 300 121))]\<rparr>)
      = response_text loop_init
   \<and> length (result_preview (replicate 300 121)) = 203"
proof -
  let ?s = "loop_init\<lparr>printed := [ToolResultPanel 0 (result_preview (replicate 300 121))]\<rparr>"
  have h: "handle_block demo_env True loop_init (ToolResultBlock (replicate 300 121)) = Inr ?s"
    by (simp add: demo_env_def renders_all_def loop_init_def)
  note t = preview_length_and_markup [of "replicate 300 121" demo_env loop_init True ?s "[]"]
  have a: "response_text ?s = response_text loop_init"
    using t [THEN conjunct2, THEN conjunct2, THEN conjunct2, THEN conjunct1, rule_format, OF h] .
  have b: "length (result_preview (replicate 300 121)) = 203"
    using t [THEN conjunct1] by (simp add: u_def)
  show ?thesis using h a b by blast
qed

section \<open>Failures of a query\<close>

text \<open>
  C4. A failure raised by the query or by the stream, with description \<open>e\<close>, during a
  free-text line. It is treated as an oversized payload exactly when \<open>e\<close> contains one
  of the two signatures, and then the remediation for oversized payloads is printed.
  Otherwise the generic failure text is printed with \<open>e\<close> spliced into markup. When that
  text is rendered, \<^verbatim>\<open>process_command\<close> returns \<open>True\<close>, the loop asks for the next line and
  a following free-text line is sent to the agent as usual. When it is not, the markup
  error leaves \<^verbatim>\<open>query_agent\<close>; the handler of the main loop prints it in the same way, and
  when that print raises too the loop is left and the process ends with status 1.
\<close>

theorem query_failure_outcomes:
  assumes "agent_reply w (queries_sent st) (enhanced_prompt (strip s)) = QueryRaises e
         \<or> (agent_reply w (queries_sent st) (enhanced_prompt (strip s)) = Stream msgs (Raised e)
            \<and> (show_react_steps st \<longrightarrow> (\<forall>b \<in> set (examined msgs). block_renders w b)))"
    and "strip s \<noteq> []" and "strip s \<notin> set command_tokens"
  shows "(is_oversized e \<longleftrightarrow>
            (\<exists>a b. e = a @ u ''exceeded maximum buffer size'' @ b)
          \<or> (\<exists>a b. e = a @ u ''JSON message exceeded'' @ b))
       \<and> (is_oversized e \<or> markup_error w (query_failed_markup e) = None \<longrightarrow>
            (\<exists>shown. snd (query_agent w st (strip s))
                       = shown @ (if is_oversized e then [OversizedError]
                                  else [QueryFailed e, QueryHint])
                     \<and> (\<forall>x \<in> set shown. is_query_progress x))
            \<and> process_command w st s
                = (Inr True, st\<lparr>queries_sent := queries_sent st + 1\<rparr>,
                   snd (query_agent w st (strip s)))
            \<and> main_loop w st [Line s]
                = (AwaitInput, st\<lparr>queries_sent := queries_sent st + 1\<rparr>,
                   AskInput # snd (query_agent w st (strip s)) @ [AskInput])
            \<and> (strip s2 \<noteq> [] \<and> strip s2 \<notin> set command_tokens \<longrightarrow>
                 (\<exists>rest. snd (snd (main_loop w st (Line s # Line s2 # ins)))
                           = AskInput # snd (query_agent w st (strip s))
                             @ AskInput
                             # snd (query_agent w (st\<lparr>queries_sent := queries_sent st + 1\<rparr>)
                                      (strip s2))
                             @ rest)))
       \<and> (\<not> is_oversized e \<and> markup_error w (query_failed_markup e) = Some m \<longrightarrow>
            (\<exists>shown. query_agent w st (strip s) = (Some m, shown)
                     \<and> (\<forall>x \<in> set shown. is_query_progress x))
            \<and> process_command w st s
                = (Inl m, st\<lparr>queries_sent := queries_sent st + 1\<rparr>,
                   snd (query_agent w st (strip s)))
            \<and> (markup_error w (loop_error_markup m) = Some m' \<longrightarrow>
                 main_loop w st (Line s # ins)
                   = (Uncaught m', st\<lparr>queries_sent := queries_sent st + 1\<rparr>,
                      AskInput # snd (query_agent w st (strip s)))
                 \<and> (api_key w \<and> connect_error w = None \<and> st = connected_cli \<longrightarrow>
                      fst (run w (Line s # ins)) = Exit 1
                      \<and> last (snd (run w (Line s # ins))) = Traceback m')))"
proof -
  let ?st = "st\<lparr>queries_sent := queries_sent st + 1\<rparr>"
  let ?q = "query_agent w st (strip s)"
  note qa = query_agent_failed [OF assms(1)]
  note pc = process_command_free [OF assms(2,3), of w st]
  have c1: "is_oversized e \<longleftrightarrow>
            (\<exists>a b. e = a @ u ''exceeded maximum buffer size'' @ b)
          \<or> (\<exists>a b. e = a @ u ''JSON message exceeded'' @ b)"
    unfolding is_oversized_def contains_iff ..
  have c2: "(\<exists>shown. snd ?q = shown @ (if is_oversized e then [OversizedError]
                                        else [QueryFailed e, QueryHint])
                     \<and> (\<forall>x \<in> set shown. is_query_progress x))
            \<and> process_command w st s = (Inr True, ?st, snd ?q)
            \<and> main_loop w st [Line s] = (AwaitInput, ?st, AskInput # snd ?q @ [AskInput])
            \<and> (strip s2 \<noteq> [] \<and> strip s2 \<notin> set command_tokens \<longrightarrow>
                 (\<exists>rest. snd (snd (main_loop w st (Line s # Line s2 # ins)))
                           = AskInput # snd ?q @ AskInput # snd (query_agent w ?st (strip s2))
                             @ rest))"
    if h: "is_oversized e \<or> markup_error w (query_failed_markup e) = None"
  proof -
    have r: "report_error w e
        = (None, if is_oversized e then [OversizedError] else [QueryFailed e, QueryHint])"
      using h report_error_oversized [of e w] report_error_rendered [of e w] by auto
    have f: "fst ?q = None" using qa r by simp
    have p: "process_command w st s = (Inr True, ?st, snd ?q)"
      using pc f by simp
    have a: "\<exists>shown. snd ?q = shown @ (if is_oversized e then [OversizedError]
                                        else [QueryFailed e, QueryHint])
                     \<and> (\<forall>x \<in> set shown. is_query_progress x)"
      using qa r by simp
    have b: "main_loop w st [Line s] = (AwaitInput, ?st, AskInput # snd ?q @ [AskInput])"
      using main_loop_true [OF p, of "[]"] by (simp add: main_loop_nil)
    have c: "\<exists>rest. snd (snd (main_loop w st (Line s # Line s2 # ins)))
                           = AskInput # snd ?q @ AskInput # snd (query_agent w ?st (strip s2))
                             @ rest"
      if s2: "strip s2 \<noteq> [] \<and> strip s2 \<notin> set command_tokens"
    proof -
      have p2: "snd (snd (process_command w ?st s2)) = snd (query_agent w ?st (strip s2))"
        using s2 process_command_free [of s2 w ?st] by simp
      obtain rest where "snd (snd (main_loop w ?st (Line s2 # ins)))
          = AskInput # snd (query_agent w ?st (strip s2)) @ rest"
        using main_loop_line_events [of w ?st s2 ins] p2 by auto
      then have "snd (snd (main_loop w st (Line s # Line s2 # ins)))
          = AskInput # snd ?q @ AskInput # snd (query_agent w ?st (strip s2)) @ rest"
        using main_loop_true [OF p, of "Line s2 # ins"] by simp
      then show ?thesis by blast
    qed
    show ?thesis using a p b c by blast
  qed
  have c3: "(\<exists>shown. ?q = (Some m, shown) \<and> (\<forall>x \<in> set shown. is_query_progress x))
            \<and> process_command w st s = (Inl m, ?st, snd ?q)
            \<and> (markup_error w (loop_error_markup m) = Some m' \<longrightarrow>
                 main_loop w st (Line s # ins) = (Uncaught m', ?st, AskInput # snd ?q)
                 \<and> (api_key w \<and> connect_error w = None \<and> st = connected_cli \<longrightarrow>
                      fst (run w (Line s # ins)) = Exit 1
                      \<and> last (snd (run w (Line s # ins))) = Traceback m'))"
    if h: "\<not> is_oversized e \<and> markup_error w (query_failed_markup e) = Some m"
  proof -
    have r: "report_error w e = (Some m, [])"
      using h report_error_raises by blast
    have f: "fst ?q = Some m" using qa r by simp
    have p: "process_command w st s = (Inl m, ?st, snd ?q)"
      using pc f by simp
    have a: "\<exists>shown. ?q = (Some m, shown) \<and> (\<forall>x \<in> set shown. is_query_progress x)"
    proof -
      obtain shown where "snd ?q = shown" "\<forall>x \<in> set shown. is_query_progress x"
        using qa r by auto
      then have "?q = (Some m, shown)" using f by (metis prod.collapse)
      then show ?thesis using \<open>\<forall>x \<in> set shown. is_query_progress x\<close> by blast
    qed
    have b: "main_loop w st (Line s # ins) = (Uncaught m', ?st, AskInput # snd ?q)
          \<and> (api_key w \<and> connect_error w = None \<and> st = connected_cli \<longrightarrow>
                fst (run w (Line s # ins)) = Exit 1
                \<and> last (snd (run w (Line s # ins))) = Traceback m')"
      if e: "markup_error w (loop_error_markup m) = Some m'"
    proof -
      have l: "main_loop w st (Line s # ins) = (Uncaught m', ?st, AskInput # snd ?q)"
        using main_loop_uncaught [OF p e] .
      have "fst (run w (Line s # ins)) = Exit 1
          \<and> last (snd (run w (Line s # ins))) = Traceback m'"
        if k: "api_key w \<and> connect_error w = None \<and> st = connected_cli"
      proof -
        have "fst (main_loop w connected_cli (Line s # ins)) = Uncaught m'"
          using l k by simp
        then show ?thesis
          using run_connected [of w "Line s # ins"] k by simp
      qed
      then show ?thesis using l by blast
    qed
    show ?thesis using a p b by blast
  qed
  show ?thesis using c1 c2 c3 by blast
qed

theorem query_failure_outcomes_witness:
  "agent_reply markup_env (queries_sent connected_cli) (enhanced_prompt (strip (u ''hi'')))
     = QueryRaises (u ''cannot read [/tmp/x]'')
   \<and> strip (u ''hi'') \<noteq> [] \<and> strip (u ''hi'') \<notin> set command_tokens
   \<and> \<not> is_oversized (u ''cannot read [/tmp/x]'')
   \<and> markup_error markup_env (query_failed_markup (u ''cannot read [/tmp/x]''))
       = Some (closing_tag_error (u ''[/tmp/x]'') 22)
   \<and> markup_error markup_env (loop_error_markup (closing_tag_error (u ''[/tmp/x]'') 22))
       = Some (closing_tag_error (u ''[/tmp/x]'') 23)
   \<and> api_key markup_env \<and> connect_error markup_env = None
   \<and> main_loop markup_env connected_cli [Line (u ''hi''), Line (u ''/help'')]
       = (Uncaught (closing_tag_error (u ''[/tmp/x]'') 23),
          connected_cli\<lparr>queries_sent := queries_sent connected_cli + 1\<rparr>,
          [AskInput, Processing, CallQuery (enhanced_prompt (strip (u ''hi'')))])
   \<and> fst (run markup_env [Line (u ''hi''), Line (u ''/help'')]) = Exit 1
   \<and> last (snd (run markup_env [Line (u ''hi''), Line (u ''/help'')]))
       = Traceback (closing_tag_error (u ''[/tmp/x]'') 23)"
proof -
  let ?e = "u ''cannot read [/tmp/x]''"
  let ?m = "closing_tag_error (u ''[/tmp/x]'') 22"
  let ?m' = "closing_tag_error (u ''[/tmp/x]'') 23"
  let ?ins = "[Line (u ''/help'')]"
  have s: "strip (u ''hi'') = u ''hi''"
    by (simp add: strip_def u_def py_isspace_def)
  have a: "agent_reply markup_env (queries_sent connected_cli) (enhanced_prompt (strip (u ''hi'')))
      = QueryRaises ?e"
    by (simp add: markup_env_def markup_reply_def connected_cli_def init_cli_def)
  have h1: "agent_reply markup_env (queries_sent connected_cli)
        (enhanced_prompt (strip (u ''hi''))) = QueryRaises ?e
      \<or> (agent_reply markup_env (queries_sent connected_cli)
            (enhanced_prompt (strip (u ''hi''))) = Stream [] (Raised ?e)
         \<and> (show_react_steps connected_cli
              \<longrightarrow> (\<forall>b \<in> set (examined []). block_renders markup_env b)))"
    using a by simp
  have h2: "strip (u ''hi'') \<noteq> []"
    unfolding s by (simp add: u_def)
  have h3: "strip (u ''hi'') \<notin> set command_tokens"
    unfolding s by (simp add: command_tokens_def u_def)
  have o: "\<not> is_oversized ?e"
    by (simp add: is_oversized_def u_def)
  have e1: "markup_error markup_env (query_failed_markup ?e) = Some ?m"
    by (simp add: markup_env_def example_markup_error_def)
  have e2: "markup_error markup_env (loop_error_markup ?m) = Some ?m'"
    by (simp add: markup_env_def example_markup_error_def query_failed_markup_def
        loop_error_markup_def closing_tag_error_def u_def dec.simps)
  have k: "api_key markup_env \<and> connect_error markup_env = None \<and> connected_cli = connected_cli"
    by (simp add: markup_env_def demo_env_def)
  note t = query_failure_outcomes [OF h1 h2 h3, of "[]" ?ins ?m ?m',
      THEN conjunct2, THEN conjunct2, rule_format, OF conjI [OF o e1]]
  note q = t [THEN conjunct1]
  note u = t [THEN conjunct2, THEN conjunct2, rule_format, OF e2]
  obtain shown where shown: "query_agent markup_env connected_cli (strip (u ''hi''))
      = (Some ?m, shown)"
    using q by blast
  have "snd (query_agent markup_env connected_cli (strip (u ''hi'')))
      = [Processing, CallQuery (enhanced_prompt (strip (u ''hi'')))]"
    using query_agent_query_raises [OF a] report_error_raises [OF o e1] by simp
  then have l: "main_loop markup_env connected_cli (Line (u ''hi'') # ?ins)
      = (Uncaught ?m', connected_cli\<lparr>queries_sent := queries_sent connected_cli + 1\<rparr>,
         [AskInput, Processing, CallQuery (enhanced_prompt (strip (u ''hi'')))])"
    using u [THEN conjunct1] by simp
  have r: "fst (run markup_env (Line (u ''hi'') # ?ins)) = Exit 1
      \<and> last (snd (run markup_env (Line (u ''hi'') # ?ins))) = Traceback ?m'"
    using u [THEN conjunct2, rule_format, OF k] .
  show ?thesis
    using a h2 h3 o e1 e2 k l r by simp
qed

section \<open>The debug toggle\<close>

text \<open>
  C8. Two \<^verbatim>\<open>/debug\<close> commands in succession leave the debug flag, and the whole state of
  the object, as they were.
\<close>

theorem debug_toggle_twice:
  "fst (snd (process_command w (fst (snd (process_command w st (u ''/debug'')))) (u ''/debug''))) = st"
  unfolding process_command_def Let_def strip_debug
  by (simp add: u_def)

theorem debug_toggle_twice_witness:
  "fst (snd (process_command demo_env
        (fst (snd (process_command demo_env connected_cli (u ''/debug'')))) (u ''/debug'')))
     = connected_cli"
  using debug_toggle_twice [of demo_env connected_cli] by simp

section \<open>Messages that are not assistant messages\<close>

text \<open>
  C10. A message of the stream that is not an assistant message changes nothing: the
  buffer, the counter and what has been printed are the same after it, the loop ends in
  the same state as on the stream without it, and the query shows the same.
\<close>

theorem non_assistant_ignored:
  assumes "\<not> is_assistant m"
  shows "handle_message w dbg s m = Inr s
       \<and> receive_loop w dbg s (pre @ m # post) = receive_loop w dbg s (pre @ post)
       \<and> (agent_reply w (queries_sent st) (enhanced_prompt q) = Stream (pre @ m # post) fin
            \<and> agent_reply w' (queries_sent st) (enhanced_prompt q) = Stream (pre @ post) fin
            \<and> markup_error w' = markup_error w
          \<longrightarrow> query_agent w st q = query_agent w' st q)"
proof -
  have c: "assistant_content m = []" using assms by (cases m) simp_all
  have a: "handle_message w dbg s m = Inr s"
    by (simp add: handle_message_content c)
  have b: "receive_loop w dbg s (pre @ m # post) = receive_loop w dbg s (pre @ post)" for w dbg s
    by (simp add: receive_loop_examined examined_drop [OF c])
  have d: "query_agent w st q = query_agent w' st q"
    if h: "agent_reply w (queries_sent st) (enhanced_prompt q) = Stream (pre @ m # post) fin
            \<and> agent_reply w' (queries_sent st) (enhanced_prompt q) = Stream (pre @ post) fin
            \<and> markup_error w' = markup_error w"
  proof -
    have m: "markup_error w' = markup_error w" using h by simp
    have l: "receive_loop w' (show_react_steps st) loop_init (pre @ post)
        = receive_loop w (show_react_steps st) loop_init (pre @ m # post)"
      using same_markup_handle_blocks [OF m]
      by (simp add: receive_loop_examined examined_drop [OF c])
    have r: "report_error w' e = report_error w e" for e
      using same_markup_report_error [OF m] .
    have 1: "query_agent w st q =
        (case receive_loop w (show_react_steps st) loop_init (pre @ m # post) of
           Inl x \<Rightarrow>
             (fst (report_error w (fst x)),
              Processing # CallQuery (enhanced_prompt q) # printed (snd x)
                @ snd (report_error w (fst x)))
         | Inr s \<Rightarrow>
             (case fin of
                Raised e \<Rightarrow>
                  (fst (report_error w e),
                   Processing # CallQuery (enhanced_prompt q) # printed s
                     @ snd (report_error w e))
              | Completed \<Rightarrow>
                  (None,
                   Processing # CallQuery (enhanced_prompt q) # printed s
                     @ show_response (show_react_steps st) s)))"
      using h by (simp add: query_agent_def)
    have 2: "query_agent w' st q =
        (case receive_loop w' (show_react_steps st) loop_init (pre @ post) of
           Inl x \<Rightarrow>
             (fst (report_error w' (fst x)),
              Processing # CallQuery (enhanced_prompt q) # printed (snd x)
                @ snd (report_error w' (fst x)))
         | Inr s \<Rightarrow>
             (case fin of
                Raised e \<Rightarrow>
                  (fst (report_error w' e),
                   Processing # CallQuery (enhanced_prompt q) # printed s
                     @ snd (report_error w' e))
              | Completed \<Rightarrow>
                  (None,
                   Processing # CallQuery (enhanced_prompt q) # printed s
                     @ show_response (show_react_steps st) s)))"
      using h by (simp add: query_agent_def)
    show ?thesis unfolding 1 2 l r ..
  qed
  show ?thesis
    using a b d by blast
qed

theorem non_assistant_ignored_witness:
  "\<not> is_assistant (UserMessage [TextBlock (u ''zz'')])
   \<and> receive_loop demo_env True loop_init
        ([AssistantMessage [TextBlock (u ''A'')]] @ UserMessage [TextBlock (u ''zz'')]
           # [AssistantMessage [TextBlock (u ''B'')]])
     = receive_loop demo_env True loop_init
        ([AssistantMessage [TextBlock (u ''A'')]] @ [AssistantMessage [TextBlock (u ''B'')]])"
proof -
  have h: "\<not> is_assistant (UserMessage [TextBlock (u ''zz'')])" by simp
  show ?thesis
    using h non_assistant_ignored [OF h, of demo_env True loop_init
        "[AssistantMessage [TextBlock (u ''A'')]]" "[AssistantMessage [TextBlock (u ''B'')]]"]
    by simp
qed

section \<open>Dispatch by exact comparison\<close>

text \<open>
  C5. \<^verbatim>\<open>process_command\<close> compares the stripped line with the command tokens by
  equality of strings. An empty line prints nothing, leaves the state as it is and the
  loop asks for the next line. A line equal to a token runs that command. Every other
  non-empty line, whether or not it begins with \<open>/\<close> or differs from a token in case
  only, is sent to the agent as a question.
\<close>

theorem dispatch_exact:
  "(strip s = [] \<longrightarrow>
      process_command w st s = (Inr True, st, [])
      \<and> main_loop w st (Line s # ins)
          = (fst (main_loop w st ins), fst (snd (main_loop w st ins)),
             AskInput # snd (snd (main_loop w st ins))))
   \<and> (strip s = u ''/quit'' \<or> strip s = u ''/exit'' \<or> strip s = u ''/q'' \<longrightarrow>
        process_command w st s = (Inr False, st, [Goodbye]))
   \<and> (strip s = u ''/help'' \<longrightarrow> process_command w st s = (Inr True, st, [HelpTables]))
   \<and> (strip s = u ''/list'' \<longrightarrow>
        process_command w st s
          = (returns_true (fst (list_documents w)), st, snd (list_documents w)))
   \<and> (strip s = u ''/status'' \<longrightarrow>
        process_command w st s = (Inr True, st, [StatusPanel (session_active st)]))
   \<and> (strip s = u ''/debug'' \<longrightarrow>
        fst (process_command w st s) = Inr True
        \<and> fst (snd (process_command w st s))
            = st\<lparr>show_react_steps := \<not> show_react_steps st\<rparr>)
   \<and> (strip s = u ''/clear'' \<longrightarrow> process_command w st s = (Inr True, st, [ClearScreen]))
   \<and> (strip s \<noteq> [] \<and> strip s \<notin> set command_tokens \<longrightarrow>
        process_command w st s
          = (returns_true (fst (query_agent w st (strip s))),
             st\<lparr>queries_sent := queries_sent st + 1\<rparr>,
             snd (query_agent w st (strip s)))
        \<and> (\<exists>rest. snd (query_agent w st (strip s))
                    = Processing # CallQuery (enhanced_prompt (strip s)) # rest))"
proof (intro conjI impI)
  assume e: "strip s = []"
  then show "process_command w st s = (Inr True, st, [])" by (rule process_command_empty)
  show "main_loop w st (Line s # ins)
          = (fst (main_loop w st ins), fst (snd (main_loop w st ins)),
             AskInput # snd (snd (main_loop w st ins)))"
    using main_loop_true [OF process_command_empty [OF e]] by simp
next
  assume "strip s = u ''/quit'' \<or> strip s = u ''/exit'' \<or> strip s = u ''/q''"
  then show "process_command w st s = (Inr False, st, [Goodbye])" by (rule process_command_quit)
next
  assume "strip s = u ''/help''"
  then show "process_command w st s = (Inr True, st, [HelpTables])"
    by (rule process_command_help)
next
  assume "strip s = u ''/list''"
  then show "process_command w st s
          = (returns_true (fst (list_documents w)), st, snd (list_documents w))"
    by (rule process_command_list)
next
  assume "strip s = u ''/status''"
  then show "process_command w st s = (Inr True, st, [StatusPanel (session_active st)])"
    by (rule process_command_status)
next
  assume d: "strip s = u ''/debug''"
  show "fst (process_command w st s) = Inr True" by (simp add: process_command_debug [OF d])
  show "fst (snd (process_command w st s)) = st\<lparr>show_react_steps := \<not> show_react_steps st\<rparr>"
    by (simp add: process_command_debug [OF d])
next
  assume "strip s = u ''/clear''"
  then show "process_command w st s = (Inr True, st, [ClearScreen])"
    by (rule process_command_clear)
next
  assume f: "strip s \<noteq> [] \<and> strip s \<notin> set command_tokens"
  then show "process_command w st s
          = (returns_true (fst (query_agent w st (strip s))),
             st\<lparr>queries_sent := queries_sent st + 1\<rparr>,
             snd (query_agent w st (strip s)))"
    using process_command_free by blast
  show "\<exists>rest. snd (query_agent w st (strip s))
                    = Processing # CallQuery (enhanced_prompt (strip s)) # rest"
    by (simp add: query_agent_def split: reply.splits sum.splits stream_end.splits)
qed

theorem dispatch_exact_witness:
  "strip (u ''/HELP'') \<noteq> [] \<and> strip (u ''/HELP'') \<notin> set command_tokens
   \<and> process_command demo_env connected_cli (u ''/HELP'')
       = (returns_true (fst (query_agent demo_env connected_cli (strip (u ''/HELP'')))),
          connected_cli\<lparr>queries_sent := queries_sent connected_cli + 1\<rparr>,
          snd (query_agent demo_env connected_cli (strip (u ''/HELP''))))
   \<and> strip (u ''/helpme'') \<noteq> [] \<and> strip (u ''/helpme'') \<notin> set command_tokens
   \<and> process_command demo_env connected_cli (u ''/helpme'')
       = (returns_true (fst (query_agent demo_env connected_cli (strip (u ''/helpme'')))),
          connected_cli\<lparr>queries_sent := queries_sent connected_cli + 1\<rparr>,
          snd (query_agent demo_env connected_cli (strip (u ''/helpme''))))
   \<and> strip (u '' /help  '') = u ''/help''
   \<and> process_command demo_env connected_cli (u '' /help  '')
       = (Inr True, connected_cli, [HelpTables])
   \<and> strip (u ''   '') = []
   \<and> process_command demo_env connected_cli (u ''   '') = (Inr True, connected_cli, [])"
proof -
  have a: "strip (u ''/HELP'') \<noteq> [] \<and> strip (u ''/HELP'') \<notin> set command_tokens"
    by (simp add: strip_def u_def py_isspace_def command_tokens_def)
  have b: "strip (u ''/helpme'') \<noteq> [] \<and> strip (u ''/helpme'') \<notin> set command_tokens"
    by (simp add: strip_def u_def py_isspace_def command_tokens_def)
  have c: "strip (u '' /help  '') = u ''/help''"
    by (simp add: strip_def u_def py_isspace_def)
  have d: "strip (u ''   '') = []"
    by (simp add: strip_def u_def py_isspace_def)
  note t1 = dispatch_exact [of "u ''/HELP''" demo_env connected_cli "[]"]
  note t2 = dispatch_exact [of "u ''/helpme''" demo_env connected_cli "[]"]
  note t3 = dispatch_exact [of "u '' /help  ''" demo_env connected_cli "[]"]
  note t4 = dispatch_exact [of "u ''   ''" demo_env connected_cli "[]"]
  have p1: "process_command demo_env connected_cli (u ''/HELP'')
       = (returns_true (fst (query_agent demo_env connected_cli (strip (u ''/HELP'')))),
          connected_cli\<lparr>queries_sent := queries_sent connected_cli + 1\<rparr>,
          snd (query_agent demo_env connected_cli (strip (u ''/HELP''))))"
    using a t1 by (elim conjE) simp
  have p2: "process_command demo_env connected_cli (u ''/helpme'')
       = (returns_true (fst (query_agent demo_env connected_cli (strip (u ''/helpme'')))),
          connected_cli\<lparr>queries_sent := queries_sent connected_cli + 1\<rparr>,
          snd (query_agent demo_env connected_cli (strip (u ''/helpme''))))"
    using b t2 by (elim conjE) simp
  have p3: "process_command demo_env connected_cli (u '' /help  '')
      = (Inr True, connected_cli, [HelpTables])"
    using c t3 by (elim conjE) simp
  have p4: "process_command demo_env connected_cli (u ''   '') = (Inr True, connected_cli, [])"
    using d t4 by (elim conjE) simp
  show ?thesis
    using a b c d p1 p2 p3 p4 by simp
qed

section \<open>Exit status\<close>

text \<open>
  C6. Without the API key the process exits with status 1 having printed the two lines
  of the error only: no welcome text, no prompt. When the connection fails it exits with
  status 1 after the welcome text and the failure message, before any prompt. A quit
  command, and every other way of breaking out of the loop, ends the process with
  status 0.
\<close>

theorem exit_status:
  "(\<not> api_key w \<longrightarrow> run w ins = (Exit 1, [ErrNoApiKey, HintApiKey]))
   \<and> (api_key w \<and> connect_error w = Some e \<longrightarrow>
        run w ins = (Exit 1, [Welcome, CallConnect, InitFailed e]))
   \<and> (api_key w \<and> connect_error w = None
        \<and> (strip s = u ''/quit'' \<or> strip s = u ''/exit'' \<or> strip s = u ''/q'') \<longrightarrow>
        run w (Line s # ins)
          = (Exit 0, [Welcome, CallConnect, InitOk, StartChat, AskInput, Goodbye,
                      Disconnecting, CallDisconnect, DisconnectDone]))
   \<and> (api_key w \<and> connect_error w = None \<and> fst (main_loop w connected_cli ins) = Break \<longrightarrow>
        fst (run w ins) = Exit 0)
   \<and> (\<not> api_key w \<or> connect_error w \<noteq> None \<longrightarrow>
        fst (run w ins) = Exit 1
        \<and> AskInput \<notin> set (snd (run w ins)) \<and> AskConfirm \<notin> set (snd (run w ins)))
   \<and> (\<not> api_key w \<longrightarrow> Welcome \<notin> set (snd (run w ins)))"
proof (intro conjI impI)
  assume "\<not> api_key w"
  then show "run w ins = (Exit 1, [ErrNoApiKey, HintApiKey])" by (simp add: run_def)
next
  assume "api_key w \<and> connect_error w = Some e"
  then show "run w ins = (Exit 1, [Welcome, CallConnect, InitFailed e])"
    by (simp add: run_def initialize_agent_def)
next
  assume h: "api_key w \<and> connect_error w = None
        \<and> (strip s = u ''/quit'' \<or> strip s = u ''/exit'' \<or> strip s = u ''/q'')"
  then have "process_command w connected_cli s = (Inr False, connected_cli, [Goodbye])"
    using process_command_quit by blast
  then have "main_loop w connected_cli (Line s # ins) = (Break, connected_cli, [AskInput, Goodbye])"
    by (rule main_loop_false)
  then show "run w (Line s # ins)
          = (Exit 0, [Welcome, CallConnect, InitOk, StartChat, AskInput, Goodbye,
                      Disconnecting, CallDisconnect, DisconnectDone])"
    using h run_connected [of w "Line s # ins"] by simp
next
  assume "api_key w \<and> connect_error w = None \<and> fst (main_loop w connected_cli ins) = Break"
  then show "fst (run w ins) = Exit 0"
    using run_connected [of w ins] by simp
next
  assume h: "\<not> api_key w \<or> connect_error w \<noteq> None"
  show "fst (run w ins) = Exit 1"
    using h by (auto simp: run_def initialize_agent_def)
  show "AskInput \<notin> set (snd (run w ins))"
    using h by (auto simp: run_def initialize_agent_def)
  show "AskConfirm \<notin> set (snd (run w ins))"
    using h by (auto simp: run_def initialize_agent_def)
next
  assume "\<not> api_key w"
  then show "Welcome \<notin> set (snd (run w ins))" by (simp add: run_def)
qed

theorem exit_status_witness:
  "\<not> api_key no_key_env
   \<and> run no_key_env [Line (u ''/help'')] = (Exit 1, [ErrNoApiKey, HintApiKey])
   \<and> api_key no_connect_env \<and> connect_error no_connect_env = Some (u ''refused'')
   \<and> run no_connect_env [Line (u ''/help'')]
       = (Exit 1, [Welcome, CallConnect, InitFailed (u ''refused'')])
   \<and> api_key demo_env \<and> connect_error demo_env = None
   \<and> (strip (u ''/quit'') = u ''/quit'' \<or> strip (u ''/quit'') = u ''/exit''
        \<or> strip (u ''/quit'') = u ''/q'')
   \<and> run demo_env [Line (u ''/quit'')]
       = (Exit 0, [Welcome, CallConnect, InitOk, StartChat, AskInput, Goodbye,
                   Disconnecting, CallDisconnect, DisconnectDone])"
proof -
  have a: "\<not> api_key no_key_env" by (simp add: no_key_env_def)
  have b: "api_key no_connect_env \<and> connect_error no_connect_env = Some (u ''refused'')"
    by (simp add: no_connect_env_def demo_env_def)
  have c: "api_key demo_env \<and> connect_error demo_env = None
      \<and> (strip (u ''/quit'') = u ''/quit'' \<or> strip (u ''/quit'') = u ''/exit''
           \<or> strip (u ''/quit'') = u ''/q'')"
    by (simp add: demo_env_def strip_def u_def py_isspace_def)
  note t1 = exit_status [of no_key_env "[Line (u ''/help'')]" "[]" "[]", THEN conjunct1]
  note t2 = exit_status [of no_connect_env "[Line (u ''/help'')]" "u ''refused''" "[]",
      THEN conjunct2, THEN conjunct1]
  note t3 = exit_status [of demo_env "[]" "[]" "u ''/quit''",
      THEN conjunct2, THEN conjunct2, THEN conjunct1]
  show ?thesis
    using a b c t1 [rule_format, OF a] t2 [rule_format, OF b] t3 [rule_format, OF c]
    by simp
qed

section \<open>Interrupts and the disconnect\<close>




section \<open>The table of documents\<close>

text \<open>
  C9. A size below 1024 is shown as its decimal digits and \<open>B\<close>; a size from 1024 up
  to but excluding \<open>1024\<^sup>2\<close> as the size over 1024 rounded to one decimal and \<open>KB\<close>; a
  larger one as the size over \<open>1024\<^sup>2\<close> with one decimal and \<open>MB\<close>. The tenths shown are
  those nearest to the exact quotient (for the MB range: below \<open>2\<^sup>5\<^sup>3\<close> bytes, where the
  quotient is an exact double). So 500, 2048 and 1048576 bytes are shown as \<open>500 B\<close>,
  \<open>2.0 KB\<close> and \<open>1.0 MB\<close>. When there is a file to list, every \<^verbatim>\<open>stat\<close> succeeds and the
  console library renders every cell, the table has one row per listed file, that is per
  entry of the \<^verbatim>\<open>rglob\<close> result that is a regular file whose name does not begin with a
  dot, in the order of that result and numbered from 1, and its header gives the number
  of these files.
\<close>

theorem list_documents_table:
  "(sz < 1024 \<longrightarrow> format_size sz = dec sz @ u '' B'')
   \<and> (1024 \<le> sz \<and> sz < 1024 * 1024 \<longrightarrow>
        format_size sz
          = dec (tenths sz 1024 div 10) @ u ''.'' @ [48 + tenths sz 1024 mod 10] @ u '' KB''
        \<and> 2 * (10 * sz) \<le> 2 * tenths sz 1024 * 1024 + 1024
        \<and> 2 * tenths sz 1024 * 1024 \<le> 2 * (10 * sz) + 1024)
   \<and> (1024 * 1024 \<le> sz \<longrightarrow>
        format_size sz
          = dec (tenths sz (1024 * 1024) div 10) @ u ''.''
              @ [48 + tenths sz (1024 * 1024) mod 10] @ u '' MB'')
   \<and> (1024 * 1024 \<le> sz \<and> sz < 2 ^ 53 \<longrightarrow>
        2 * (10 * sz) \<le> 2 * tenths sz (1024 * 1024) * (1024 * 1024) + 1024 * 1024
        \<and> 2 * tenths sz (1024 * 1024) * (1024 * 1024) \<le> 2 * (10 * sz) + 1024 * 1024)
   \<and> format_size 500 = u ''500 B'' \<and> format_size 2048 = u ''2.0 KB''
   \<and> format_size 1048576 = u ''1.0 MB''
   \<and> (rglob w = Inr all_files
        \<and> files = filter (\<lambda>f. is_file f \<and> \<not> startswith (name f) (u ''.'')) all_files
        \<and> rows = map row_of (List.enumerate 1 files)
        \<and> files \<noteq> []
        \<and> (\<forall>f \<in> set files. \<exists>n. st_size f = Inr n)
        \<and> (\<forall>c \<in> set (table_cells rows). markup_error w c = None) \<longrightarrow>
        list_documents w = (None, [Scanning, DocTable (length files) rows])
        \<and> length rows = length files
        \<and> map row_name rows = map name files
        \<and> map row_index rows = map dec [1..<Suc (length files)])"
proof (intro conjI impI)
  show "format_size 500 = u ''500 B''" by (rule format_size_500)
  show "format_size 2048 = u ''2.0 KB''" by (rule format_size_2048)
  show "format_size 1048576 = u ''1.0 MB''" by (rule format_size_1048576)
next
  assume "sz < 1024"
  then show "format_size sz = dec sz @ u '' B''" by (simp add: format_size_def)
next
  assume h: "1024 \<le> sz \<and> sz < 1024 * 1024"
  then show "format_size sz
          = dec (tenths sz 1024 div 10) @ u ''.'' @ [48 + tenths sz 1024 mod 10] @ u '' KB''"
    by (simp add: format_size_def fmt_1f_digits)
  have s: "round53 sz = sz" using h by (simp add: round53_small)
  show "2 * (10 * sz) \<le> 2 * tenths sz 1024 * 1024 + 1024"
    using round_half_even_near [of 1024 "10 * sz"] by (simp add: tenths_def s)
  show "2 * tenths sz 1024 * 1024 \<le> 2 * (10 * sz) + 1024"
    using round_half_even_near [of 1024 "10 * sz"] by (simp add: tenths_def s)
next
  assume "1024 * 1024 \<le> sz"
  then show "format_size sz
          = dec (tenths sz (1024 * 1024) div 10) @ u ''.''
              @ [48 + tenths sz (1024 * 1024) mod 10] @ u '' MB''"
    by (simp add: format_size_def fmt_1f_digits)
next
  assume h: "1024 * 1024 \<le> sz \<and> sz < 2 ^ 53"
  have s: "round53 sz = sz" using h by (simp add: round53_small)
  show "2 * (10 * sz) \<le> 2 * tenths sz (1024 * 1024) * (1024 * 1024) + 1024 * 1024"
    using round_half_even_near [of "1024 * 1024" "10 * sz"] by (simp add: tenths_def s)
  show "2 * tenths sz (1024 * 1024) * (1024 * 1024) \<le> 2 * (10 * sz) + 1024 * 1024"
    using round_half_even_near [of "1024 * 1024" "10 * sz"] by (simp add: tenths_def s)
next
  assume h: "rglob w = Inr all_files
        \<and> files = filter (\<lambda>f. is_file f \<and> \<not> startswith (name f) (u ''.'')) all_files
        \<and> rows = map row_of (List.enumerate 1 files)
        \<and> files \<noteq> []
        \<and> (\<forall>f \<in> set files. \<exists>n. st_size f = Inr n)
        \<and> (\<forall>c \<in> set (table_cells rows). markup_error w c = None)"
  have rg: "rglob w = Inr all_files" using h by (elim conjE)
  have l: "listed all_files = files" using h unfolding listed_def by (elim conjE) (rule sym)
  have r: "rows = map row_of (List.enumerate 1 files)" using h by (elim conjE)
  have ne: "files \<noteq> []" using h by (elim conjE)
  have st: "\<forall>f \<in> set files. \<exists>n. st_size f = Inr n" using h by (elim conjE)
  have mk: "\<forall>c \<in> set (table_cells rows). markup_error w c = None" using h by (elim conjE)
  have a: "add_rows 1 files = Inr rows"
    unfolding r using st by (rule add_rows_ok)
  have m: "first_markup_error w (table_cells rows) = None"
    using mk by (rule first_markup_error_none)
  have a': "add_rows (Suc 0) files = Inr rows" using a by simp
  show "list_documents w = (None, [Scanning, DocTable (length files) rows])"
    by (simp add: list_documents_def rg l a' m ne)
  show "length rows = length files" unfolding r by simp
  have n: "row_name (row_of p) = name (snd p)" for p
    by (simp add: row_of_def)
  have i: "row_index (row_of p) = dec (fst p)" for p
    by (simp add: row_of_def)
  have "map row_name rows = map (\<lambda>p. name (snd p)) (List.enumerate 1 files)"
    unfolding r by (simp add: n comp_def)
  also have "\<dots> = map name (map snd (List.enumerate 1 files))"
    unfolding map_map comp_def ..
  also have "\<dots> = map name files"
    by (simp only: map_snd_enumerate)
  finally show "map row_name rows = map name files" .
  have "map row_index rows = map (\<lambda>p. dec (fst p)) (List.enumerate 1 files)"
    unfolding r by (simp add: i comp_def)
  also have "\<dots> = map dec (map fst (List.enumerate 1 files))"
    unfolding map_map comp_def ..
  also have "\<dots> = map dec [1..<Suc (length files)]"
    by (simp only: map_fst_enumerate) simp
  finally show "map row_index rows = map dec [1..<Suc (length files)]" .
qed

theorem list_documents_table_witness:
  "rglob listing_env = Inr demo_files
   \<and> map name (listed demo_files) = [u ''c.pdf'', u ''a.txt'', u ''b.xlsx'']
   \<and> map st_size (listed demo_files) = [Inr 1048576, Inr 500, Inr 2048]
   \<and> (1024::nat) \<le> 2048 \<and> (2048::nat) < 1024 * 1024
   \<and> list_documents listing_env
       = (None,
          [Scanning,
           DocTable 3
             [Row (u ''1'') (u ''c.pdf'') (u ''1.0 MB'') (u ''.''),
              Row (u ''2'') (u ''a.txt'') (u ''500 B'') (u ''sub''),
              Row (u ''3'') (u ''b.xlsx'') (u ''2.0 KB'') (u ''.'')]])"
proof -
  let ?rows = "[Row (u ''1'') (u ''c.pdf'') (format_size 1048576) (u ''.''),
                Row (u ''2'') (u ''a.txt'') (format_size 500) (u ''sub''),
                Row (u ''3'') (u ''b.xlsx'') (format_size 2048) (u ''.'')]"
  have h1: "rglob listing_env = Inr demo_files" by (simp add: listing_env_def)
  have h2: "listed demo_files
      = filter (\<lambda>f. is_file f \<and> \<not> startswith (name f) (u ''.'')) demo_files"
    by (simp add: listed_def)
  have h3: "?rows = map row_of (List.enumerate 1 (listed demo_files))"
    by (simp add: listed_demo row_of_def dec_digit u_def)
  have h4: "listed demo_files \<noteq> []" by (simp add: listed_demo)
  have h5: "\<forall>f \<in> set (listed demo_files). \<exists>n. st_size f = Inr n" by (simp add: listed_demo)
  have h6: "\<forall>c \<in> set (table_cells ?rows). markup_error listing_env c = None"
    by (simp add: listing_env_def demo_env_def renders_all_def)
  note ex = list_documents_table [of 2048 listing_env demo_files "listed demo_files" ?rows,
      THEN conjunct2, THEN conjunct2, THEN conjunct2, THEN conjunct2]
  have f: "format_size 500 = u ''500 B''" "format_size 2048 = u ''2.0 KB''"
      "format_size 1048576 = u ''1.0 MB''"
    by (rule ex [THEN conjunct1], rule ex [THEN conjunct2, THEN conjunct1],
        rule ex [THEN conjunct2, THEN conjunct2, THEN conjunct1])
  have t: "list_documents listing_env
      = (None, [Scanning, DocTable (length (listed demo_files)) ?rows])"
    using ex [THEN conjunct2, THEN conjunct2, THEN conjunct2, rule_format,
        OF conjI [OF h1 conjI [OF h2 conjI [OF h3 conjI [OF h4 conjI [OF h5 h6]]]]]]
    by (rule conjunct1)
  have l: "length (listed demo_files) = 3" by (simp add: listed_demo)
  show ?thesis
    unfolding t l f using h1 by (simp add: listed_demo)
qed

end
